theory Spec2Isabelle
  imports Main "HOL-Library.Word" "HOL-Library.Signed_Division"
begin

unbundle bit_operations_syntax

section \<open>Yarns voice: constants and machine integers\<close>

text \<open>
  This theory embeds \<^verbatim>\<open>src/yarns/voice.cc\<close>.  Fixed-width C++ integers are words;
  \<^verbatim>\<open>int32_t\<close> and \<^verbatim>\<open>uint32_t\<close> share the type \<open>32 word\<close> and differ in
  the operations applied to them (\<open>sint\<close>, \<open><s\<close>, \<open>signed_drop_bit\<close> for the
  signed reading; \<open>unat\<close>, \<open><\<close>, \<open>drop_bit\<close> for the unsigned one).
\<close>

type_synonym u8 = "8 word"
type_synonym u16 = "16 word"
type_synonym u32 = "32 word"
type_synonym i16 = "16 word"
type_synonym i32 = "32 word"

definition kOctave :: int where
  "kOctave = 12 * 2 ^ 7"

definition kMaxNote :: int where
  "kMaxNote = 120 * 2 ^ 7"

text \<open>
  Modelled from the spec: \<^verbatim>\<open>kNumOctaves\<close> is declared in \<^verbatim>\<open>voice.h\<close>, which is
  not among the sources.  The calibration table holds one code per octave boundary of
  the note range \<open>[0, kMaxNote)\<close>, which spans ten octaves, hence eleven boundaries.
\<close>

definition kNumOctaves :: nat where
  "kNumOctaves = 11"

section \<open>Note-to-code quantisation\<close>

text \<open>
  \<^verbatim>\<open>while (note >= kOctave) { note -= kOctave; ++octave; }\<close> with
  \<^verbatim>\<open>uint8_t octave\<close>: the counter wraps at 256.
\<close>

function octave_loop :: "int \<Rightarrow> nat \<Rightarrow> int \<times> nat" where
  "octave_loop note octave =
     (if note \<ge> kOctave
      then octave_loop (note - kOctave) ((octave + 1) mod 256)
      else (note, octave))"
  by pat_completeness auto
termination
  by (relation "measure (\<lambda>(note, octave). nat note)") (auto simp: kOctave_def)

declare octave_loop.simps [simp del]

text \<open>The two clamping statements at the head of \<^verbatim>\<open>NoteToDacCode\<close>.\<close>

definition clamp_note :: "int \<Rightarrow> int" where
  "clamp_note note =
     (let note = (if note \<le> 0 then 0 else note)
      in if note \<ge> kMaxNote then kMaxNote - 1 else note)"

text \<open>
  \<^verbatim>\<open>NoteToDacCode\<close>.  The argument is the value of the \<^verbatim>\<open>int32_t\<close> parameter.
  The table is the \<^verbatim>\<open>uint16_t\<close> array \<^verbatim>\<open>calibrated_dac_code_\<close>; a read past its end
  (undefined behaviour in C++) is the result \<open>None\<close>.  \<open>a\<close>, \<open>b\<close> and the
  interpolation are \<^verbatim>\<open>int32_t\<close> arithmetic with C++ truncating division
  (\<open>sdiv\<close>); the returned \<^verbatim>\<open>uint16_t\<close> keeps the low sixteen bits.
\<close>

definition NoteToDacCode :: "u16 list \<Rightarrow> int \<Rightarrow> u16 option" where
  "NoteToDacCode calibrated_dac_code note =
     (case octave_loop (clamp_note note) 0 of (note', octave) \<Rightarrow>
        if octave + 1 < length calibrated_dac_code
        then let a = uint (calibrated_dac_code ! octave);
                 b = uint (calibrated_dac_code ! (octave + 1))
             in Some (word_of_int (a + ((b - a) * note') sdiv kOctave))
        else None)"

section \<open>External resources\<close>

text \<open>
  Modelled from the spec: the lookup tables of \<^verbatim>\<open>yarns/resources.h\<close> and the
  interpolation routine \<^verbatim>\<open>Interpolate824\<close> of \<^verbatim>\<open>stmlib/utils/dsp.h\<close> are
  read-only data supplied from outside \<^verbatim>\<open>voice.cc\<close>.  They are parameters of the
  model; nothing is assumed about their contents.
  \<^item> \<open>lut_portamento_increments i\<close> is \<^verbatim>\<open>lut_portamento_increments[i]\<close>;
  \<^item> \<open>lut_lfo_increments i\<close> is \<^verbatim>\<open>lut_lfo_increments[i]\<close>;
  \<^item> \<open>env_expo p\<close> is \<^verbatim>\<open>Interpolate824(lut_env_expo, p)\<close>;
  \<^item> \<open>waveform k p\<close> is \<^verbatim>\<open>Interpolate824(waveform_table[k], p)\<close>.
\<close>

record resources =
  lut_portamento_increments :: "nat \<Rightarrow> u32"
  lut_lfo_increments :: "nat \<Rightarrow> u32"
  env_expo :: "u32 \<Rightarrow> u16"
  waveform :: "nat \<Rightarrow> u32 \<Rightarrow> i16"

text \<open>
  Modelled from the spec: the MIDI controller numbers of \<^verbatim>\<open>stmlib/midi/midi.h\<close>
  (modulation wheel, breath controller, foot pedal), with their standard MIDI values.
\<close>

definition kCCModulationWheelMsb :: u8 where
  "kCCModulationWheelMsb = 1"

definition kCCBreathController :: u8 where
  "kCCBreathController = 2"

definition kCCFootPedalMsb :: u8 where
  "kCCFootPedalMsb = 4"

text \<open>
  Modelled from the spec: the enumeration of trigger shapes is declared in
  \<^verbatim>\<open>voice.h\<close>.  \<open>TRIGGER_SHAPE_TABLE k\<close> stands for the shape whose number is
  \<^verbatim>\<open>TRIGGER_SHAPE_EXPONENTIAL + k\<close>, the \<open>k\<close>-th precomputed curve.
\<close>

datatype TriggerShape =
    TRIGGER_SHAPE_SQUARE
  | TRIGGER_SHAPE_LINEAR
  | TRIGGER_SHAPE_TABLE nat

text \<open>
  Modelled from the spec: the macro \<^verbatim>\<open>CONSTRAIN(var, min, max)\<close> of stmlib clamps
  \<open>var\<close> into \<open>[min, max]\<close>; on a \<^verbatim>\<open>uint32_t\<close> the comparisons are unsigned.
\<close>

definition CONSTRAIN :: "u32 \<Rightarrow> u32 \<Rightarrow> u32 \<Rightarrow> u32" where
  "CONSTRAIN var lo hi = (if var < lo then lo else if var > hi then hi else var)"

section \<open>The voice\<close>

text \<open>
  Modelled from the spec: the class \<^verbatim>\<open>Voice\<close> is declared in \<^verbatim>\<open>voice.h\<close>.  Its
  data members are the fields below, named as in \<^verbatim>\<open>voice.cc\<close> without the trailing
  underscore (\<open>current_note\<close> is \<^verbatim>\<open>note_\<close>).  Pitches are \<^verbatim>\<open>int32_t\<close>, phases
  and their increments \<^verbatim>\<open>uint32_t\<close>, output codes and the two countdowns
  \<^verbatim>\<open>uint16_t\<close>, MIDI-sized parameters \<^verbatim>\<open>uint8_t\<close>, the pitch bend
  \<^verbatim>\<open>int16_t\<close>.  \<open>calibrated_dac_code\<close> is an array of \<open>kNumOctaves\<close> codes and
  \<open>mod_aux\<close> an array of eight.  The member \<^verbatim>\<open>oscillator_\<close> belongs to another
  class and is left out.
\<close>

record Voice =
  current_note :: i32
  note_source :: i32
  note_target :: i32
  note_portamento :: i32
  tuning :: i32
  gate :: bool
  dirty :: bool
  note_dac_code :: u16
  calibrated_dac_code :: "u16 list"
  mod_pitch_bend :: i16
  mod_wheel :: u8
  mod_aux :: "u16 list"
  mod_velocity :: u8
  pitch_bend_range :: u8
  modulation_rate :: u8
  vibrato_range :: u8
  lfo_phase :: u32
  lfo_pll_phase_increment :: u32
  portamento_phase :: u32
  portamento_phase_increment :: u32
  portamento_exponential_shape :: bool
  retrigger_delay :: u16
  trigger_pulse :: u16
  trigger_phase_increment :: u32
  trigger_phase :: u32
  trigger_duration :: u8
  trigger_shape :: TriggerShape
  trigger_scale :: bool

text \<open>The array sizes of a \<^verbatim>\<open>Voice\<close> object.\<close>

definition voice_ok :: "Voice \<Rightarrow> bool" where
  "voice_ok v \<longleftrightarrow>
     length (calibrated_dac_code v) = kNumOctaves \<and> length (mod_aux v) = 8"

text \<open>\<^verbatim>\<open>std::fill(&a[first], &a[last], value)\<close> on an array held as a list.\<close>

definition fill :: "'a list \<Rightarrow> nat \<Rightarrow> nat \<Rightarrow> 'a \<Rightarrow> 'a list" where
  "fill a first_ix last_ix val = fold (\<lambda>i xs. xs[i := val]) [first_ix..<last_ix] a"

definition ResetAllControllers :: "Voice \<Rightarrow> Voice" where
  "ResetAllControllers v =
     v\<lparr>mod_pitch_bend := 8192,
       mod_wheel := 0,
       mod_aux := fill (mod_aux v) 0 7 0\<rparr>"

text \<open>
  The table written by \<^verbatim>\<open>Init(true)\<close>: entry \<open>i\<close> is \<^verbatim>\<open>54586 - 5133 * i\<close>,
  stored as \<^verbatim>\<open>uint16_t\<close>.
\<close>

definition default_calibration :: "u16 list" where
  "default_calibration = map (\<lambda>i. word_of_int (54586 - 5133 * int i)) [0..<kNumOctaves]"

text \<open>
  \<^verbatim>\<open>Init\<close>.  The closing call \<^verbatim>\<open>oscillator_.Init\<close> reads entries 3 and 8 of the
  table and changes no member modelled here.
\<close>

definition Init :: "bool \<Rightarrow> Voice \<Rightarrow> Voice" where
  "Init reset_calibration v =
     (let v = v\<lparr>current_note := - 1\<rparr>;
          v = v\<lparr>note_source := 60 * 2 ^ 7, note_target := 60 * 2 ^ 7,
                note_portamento := 60 * 2 ^ 7\<rparr>;
          v = v\<lparr>gate := False\<rparr>;
          v = v\<lparr>mod_velocity := 0\<rparr>;
          v = ResetAllControllers v;
          v = v\<lparr>modulation_rate := 0, pitch_bend_range := 2, vibrato_range := 0\<rparr>;
          v = v\<lparr>lfo_phase := 0, portamento_phase := 0\<rparr>;
          v = v\<lparr>portamento_phase_increment := 2 ^ 31\<rparr>;
          v = v\<lparr>portamento_exponential_shape := False\<rparr>;
          v = v\<lparr>trigger_duration := 2\<rparr>;
          v = (if reset_calibration
               then v\<lparr>calibrated_dac_code := default_calibration\<rparr> else v)
      in v\<lparr>dirty := False\<rparr>)"

subsection \<open>Refresh\<close>

text \<open>
  The glide phase: \<^verbatim>\<open>portamento_phase_ += portamento_phase_increment_\<close> and the
  unsigned wrap test that ends the glide.
\<close>

definition portamento_step :: "Voice \<Rightarrow> Voice" where
  "portamento_step v =
     (let v = v\<lparr>portamento_phase := portamento_phase v + portamento_phase_increment v\<rparr>
      in if portamento_phase v < portamento_phase_increment v
         then v\<lparr>portamento_phase := 0,
                portamento_phase_increment := 0,
                note_source := note_target v\<rparr>
         else v)"

definition portamento_level :: "resources \<Rightarrow> Voice \<Rightarrow> u16" where
  "portamento_level L v =
     (if portamento_exponential_shape v
      then env_expo L (portamento_phase v)
      else ucast (drop_bit 16 (portamento_phase v)))"

text \<open>
  The triangle oscillator:
  \<^verbatim>\<open>lfo_phase_ < 1UL << 31 ? -32768 + (lfo_phase_ >> 15) : 0x17fff - (lfo_phase_ >> 15)\<close>,
  computed on \<^verbatim>\<open>uint32_t\<close> and stored in an \<^verbatim>\<open>int32_t\<close>.
\<close>

definition lfo_value :: "u32 \<Rightarrow> i32" where
  "lfo_value phase =
     (if phase < 2 ^ 31
      then - 32768 + drop_bit 15 phase
      else 0x17fff - drop_bit 15 phase)"

definition lfo_step :: "resources \<Rightarrow> Voice \<Rightarrow> Voice" where
  "lfo_step L v =
     (if modulation_rate v < 100
      then v\<lparr>lfo_phase := lfo_phase v + lut_lfo_increments L (unat (modulation_rate v))\<rparr>
      else v\<lparr>lfo_phase := lfo_phase v + lfo_pll_phase_increment v\<rparr>)"

text \<open>The five assignments to \<^verbatim>\<open>mod_aux_\<close> in \<^verbatim>\<open>Refresh\<close>.\<close>

definition mod_aux_step :: "i32 \<Rightarrow> Voice \<Rightarrow> Voice" where
  "mod_aux_step lfo v =
     (let v = v\<lparr>mod_aux := (mod_aux v)[0 := ucast (push_bit 9 (ucast (mod_velocity v) :: i32))]\<rparr>;
          v = v\<lparr>mod_aux := (mod_aux v)[1 := ucast (push_bit 9 (ucast (mod_wheel v) :: i32))]\<rparr>;
          v = v\<lparr>mod_aux := (mod_aux v)[5 := ucast (push_bit 2 (ucast (mod_pitch_bend v) :: i32))]\<rparr>;
          v = v\<lparr>mod_aux := (mod_aux v)[6 :=
                ucast (signed_drop_bit 7 (lfo * ucast (mod_wheel v)) + 32768)]\<rparr>
      in v\<lparr>mod_aux := (mod_aux v)[7 := ucast (lfo + 32768)]\<rparr>)"

text \<open>The two countdowns and the trigger envelope phase.\<close>

definition trigger_step :: "Voice \<Rightarrow> Voice" where
  "trigger_step v =
     (let v = (if retrigger_delay v \<noteq> 0
               then v\<lparr>retrigger_delay := retrigger_delay v - 1\<rparr> else v);
          v = (if trigger_pulse v \<noteq> 0
               then v\<lparr>trigger_pulse := trigger_pulse v - 1\<rparr> else v)
      in if trigger_phase_increment v \<noteq> 0
         then let v = v\<lparr>trigger_phase := trigger_phase v + trigger_phase_increment v\<rparr>
              in if trigger_phase v < trigger_phase_increment v
                 then v\<lparr>trigger_phase := 0, trigger_phase_increment := 0\<rparr>
                 else v
         else v)"

text \<open>
  \<^verbatim>\<open>Refresh\<close>, in two parts.  \<open>Refresh_update\<close> is the body up to the trigger
  phase; it returns the voice together with the local variable \<^verbatim>\<open>note\<close>.  Products
  and sums of pitches are \<^verbatim>\<open>int32_t\<close> arithmetic (two's complement, wrapping);
  \<^verbatim>\<open>>>\<close> on them is the arithmetic shift.
\<close>

definition Refresh_update :: "resources \<Rightarrow> Voice \<Rightarrow> Voice \<times> i32" where
  "Refresh_update L v =
     (let v = portamento_step v;
          level = portamento_level L v;
          note = note_source v +
                 signed_drop_bit 16 ((note_target v - note_source v) * ucast level);
          v = v\<lparr>note_portamento := note\<rparr>;
          note = note + signed_drop_bit 6
                   ((scast (mod_pitch_bend v) - 8192) * ucast (pitch_bend_range v));
          note = note + tuning v;
          v = lfo_step L v;
          lfo = lfo_value (lfo_phase v);
          note = note + signed_drop_bit 15
                   (lfo * ucast (mod_wheel v) * ucast (vibrato_range v));
          v = mod_aux_step lfo v;
          v = trigger_step v
      in (v, note))"

text \<open>
  The closing statement of \<^verbatim>\<open>Refresh\<close> recomputes the pitch code when the note has
  changed or \<^verbatim>\<open>dirty_\<close> is set.  The result is \<open>None\<close> exactly when
  \<^verbatim>\<open>NoteToDacCode\<close> reads outside the table.
\<close>

definition Refresh :: "resources \<Rightarrow> Voice \<Rightarrow> Voice option" where
  "Refresh L v =
     (case Refresh_update L v of (v, note) \<Rightarrow>
        if note \<noteq> current_note v \<or> dirty v
        then (case NoteToDacCode (calibrated_dac_code v) (sint note) of
                None \<Rightarrow> None
              | Some code \<Rightarrow>
                  Some (v\<lparr>note_dac_code := code, current_note := note, dirty := False\<rparr>))
        else Some v)"

text \<open>\<open>Refresh_n L k v\<close>: \<open>k\<close> successive ticks.\<close>

fun Refresh_n :: "resources \<Rightarrow> nat \<Rightarrow> Voice \<Rightarrow> Voice option" where
  "Refresh_n L 0 v = Some v"
| "Refresh_n L (Suc k) v =
     (case Refresh L v of None \<Rightarrow> None | Some v' \<Rightarrow> Refresh_n L k v')"

subsection \<open>Events\<close>

text \<open>\<^verbatim>\<open>abs\<close> on an \<^verbatim>\<open>int32_t\<close>.\<close>

definition abs_i32 :: "i32 \<Rightarrow> i32" where
  "abs_i32 x = (if x <s 0 then - x else x)"

text \<open>
  The divisor of the linear glide: \<^verbatim>\<open>uint32_t delta = abs(note_target_ - note_source_) + 1\<close>.
\<close>

definition glide_delta :: "Voice \<Rightarrow> u32" where
  "glide_delta v = abs_i32 (note_target v - note_source v) + 1"

text \<open>
  The glide set-up of \<^verbatim>\<open>NoteOn\<close>.  The quotient is an unsigned division; its
  divisor \<open>glide_delta\<close> is shown below never to be zero.
\<close>

definition glide_setup :: "resources \<Rightarrow> u8 \<Rightarrow> Voice \<Rightarrow> Voice" where
  "glide_setup L portamento v =
     (if portamento \<le> 50
      then v\<lparr>portamento_phase_increment :=
                lut_portamento_increments L (2 * unat portamento),
             portamento_exponential_shape := True\<rparr>
      else let base_increment = lut_portamento_increments L (2 * (unat portamento - 51));
               delta = glide_delta v;
               v = v\<lparr>portamento_phase_increment :=
                       push_bit 11 (1536 * drop_bit 11 base_increment div delta)\<rparr>;
               v = v\<lparr>portamento_phase_increment :=
                       CONSTRAIN (portamento_phase_increment v) 1 2147483647\<rparr>
           in v\<lparr>portamento_exponential_shape := False\<rparr>)"

definition NoteOn :: "resources \<Rightarrow> i16 \<Rightarrow> u8 \<Rightarrow> u8 \<Rightarrow> bool \<Rightarrow> Voice \<Rightarrow> Voice" where
  "NoteOn L note velocity portamento trigger v =
     (let v = v\<lparr>note_source := note_portamento v\<rparr>;
          v = v\<lparr>note_target := scast note\<rparr>;
          v = (if portamento = 0 then v\<lparr>note_source := note_target v\<rparr> else v);
          v = v\<lparr>portamento_phase := 0\<rparr>;
          v = glide_setup L portamento v;
          v = v\<lparr>mod_velocity := velocity\<rparr>;
          v = (if gate v \<and> trigger then v\<lparr>retrigger_delay := 2\<rparr> else v);
          v = (if trigger
               then v\<lparr>trigger_pulse := word_of_nat (unat (trigger_duration v) * 8),
                      trigger_phase := 0,
                      trigger_phase_increment :=
                        lut_portamento_increments L (unat (trigger_duration v))\<rparr>
               else v)
      in v\<lparr>gate := True\<rparr>)"

definition NoteOff :: "Voice \<Rightarrow> Voice" where
  "NoteOff v = v\<lparr>gate := False\<rparr>"

definition ControlChange :: "u8 \<Rightarrow> u8 \<Rightarrow> Voice \<Rightarrow> Voice" where
  "ControlChange controller val v =
     (if controller = kCCModulationWheelMsb then v\<lparr>mod_wheel := val\<rparr>
      else if controller = kCCBreathController
        then v\<lparr>mod_aux := (mod_aux v)[3 := ucast (push_bit 9 (ucast val :: i32))]\<rparr>
      else if controller = kCCFootPedalMsb
        then v\<lparr>mod_aux := (mod_aux v)[4 := ucast (push_bit 9 (ucast val :: i32))]\<rparr>
      else v)"

text \<open>
  \<^verbatim>\<open>trigger_dac_code\<close>.  A read of entry 3 or 8 outside the table is \<open>None\<close>.
\<close>

definition trigger_dac_code :: "resources \<Rightarrow> Voice \<Rightarrow> u16 option" where
  "trigger_dac_code L v =
     (if trigger_phase v \<le> trigger_phase_increment v
      then (if 3 < length (calibrated_dac_code v)
            then Some (calibrated_dac_code v ! 3) else None)
      else let velocity_coefficient =
                 (if trigger_scale v then push_bit 8 (ucast (mod_velocity v)) else 32768 :: i32);
               val = (case trigger_shape v of
                        TRIGGER_SHAPE_SQUARE \<Rightarrow> 32767
                      | TRIGGER_SHAPE_LINEAR \<Rightarrow> 32767 - drop_bit 17 (trigger_phase v)
                      | TRIGGER_SHAPE_TABLE k \<Rightarrow> scast (waveform L k (trigger_phase v)));
               val = signed_drop_bit 15 (val * velocity_coefficient)
           in if 8 < length (calibrated_dac_code v)
              then let max_code = (ucast (calibrated_dac_code v ! 8) :: i32);
                       min_code = (ucast (calibrated_dac_code v ! 3) :: i32)
                   in Some (ucast (min_code + signed_drop_bit 15 ((max_code - min_code) * val)))
              else None)"

text \<open>The events a voice receives, and a run of them from a given state.\<close>

datatype event =
    EvNoteOn i16 u8 u8 bool
  | EvNoteOff
  | EvControlChange u8 u8
  | EvRefresh

fun apply_event :: "resources \<Rightarrow> Voice \<Rightarrow> event \<Rightarrow> Voice option" where
  "apply_event L v (EvNoteOn note velocity portamento trigger) =
     Some (NoteOn L note velocity portamento trigger v)"
| "apply_event L v EvNoteOff = Some (NoteOff v)"
| "apply_event L v (EvControlChange controller val) = Some (ControlChange controller val v)"
| "apply_event L v EvRefresh = Refresh L v"

fun run :: "resources \<Rightarrow> Voice \<Rightarrow> event list \<Rightarrow> Voice option" where
  "run L v [] = Some v"
| "run L v (e # es) =
     (case apply_event L v e of None \<Rightarrow> None | Some v' \<Rightarrow> run L v' es)"

section \<open>Auxiliary notions for the statements\<close>

text \<open>
  The integer that \<^verbatim>\<open>NoteToDacCode\<close> interpolates for an already clamped note
  \<open>c\<close>: octave \<open>c div kOctave\<close>, remainder \<open>c mod kOctave\<close>.
\<close>

definition code_at :: "u16 list \<Rightarrow> int \<Rightarrow> int" where
  "code_at tbl c =
     (let a = uint (tbl ! nat (c div kOctave));
          b = uint (tbl ! (nat (c div kOctave) + 1))
      in a + ((b - a) * (c mod kOctave)) sdiv kOctave)"

text \<open>A table is monotonic when its codes never fall, or never rise, along the octaves.\<close>

definition monotonic_table :: "u16 list \<Rightarrow> bool" where
  "monotonic_table tbl \<longleftrightarrow> sorted tbl \<or> sorted (rev tbl)"

text \<open>
  The state of a glide armed with increment \<open>inc\<close>: still running with that
  increment, or completed (increment reset, source moved onto the target).
\<close>

definition glide_settled :: "u32 \<Rightarrow> Voice \<Rightarrow> bool" where
  "glide_settled inc v \<longleftrightarrow>
     portamento_phase_increment v = inc \<or>
     (portamento_phase_increment v = 0 \<and> note_source v = note_target v)"

text \<open>
  The state of the trigger phase during the forced gap: with two ticks of the countdown
  left the phase is still zero, with one tick left it is at most one increment.
\<close>

definition gap_inv :: "Voice \<Rightarrow> bool" where
  "gap_inv v \<longleftrightarrow>
     retrigger_delay v = 0 \<or>
     (retrigger_delay v = 1 \<and> trigger_phase v \<le> trigger_phase_increment v) \<or>
     (retrigger_delay v = 2 \<and> trigger_phase v = 0)"

text \<open>
  A concrete set of tables and a concrete voice in the middle of a glide, on which the
  theorems below are instantiated.
\<close>

definition sample_resources :: resources where
  "sample_resources =
     \<lparr>lut_portamento_increments = (\<lambda>i. push_bit 24 (word_of_nat (i + 1))),
      lut_lfo_increments = (\<lambda>i. push_bit 16 (word_of_nat (i + 1))),
      env_expo = (\<lambda>p. ucast (drop_bit 16 p)),
      waveform = (\<lambda>k p. ucast (drop_bit 17 p))\<rparr>"

definition sample_voice :: Voice where
  "sample_voice =
     \<lparr>current_note = 7680, note_source = 7680, note_target = 8192, note_portamento = 7900,
      tuning = 0, gate = True, dirty = False, note_dac_code = 0,
      calibrated_dac_code = default_calibration,
      mod_pitch_bend = 9000, mod_wheel = 5,
      mod_aux = [11, 12, 13, 14, 15, 16, 17, 18],
      mod_velocity = 100, pitch_bend_range = 2, modulation_rate = 0, vibrato_range = 0,
      lfo_phase = 0, lfo_pll_phase_increment = 0,
      portamento_phase = 0xC0000000, portamento_phase_increment = 0x50000000,
      portamento_exponential_shape = False,
      retrigger_delay = 0, trigger_pulse = 0, trigger_phase_increment = 0, trigger_phase = 0,
      trigger_duration = 2, trigger_shape = TRIGGER_SHAPE_SQUARE, trigger_scale = False\<rparr>"

section \<open>Properties of the quantisation\<close>

lemma octave_loop_steps:
  "0 \<le> r \<Longrightarrow> r < kOctave \<Longrightarrow> octave + q < 256 \<Longrightarrow>
   octave_loop (r + int q * kOctave) octave = (r, octave + q)"
proof (induction q arbitrary: octave)
  case 0
  then show ?case by (simp add: octave_loop.simps [of r octave])
next
  case (Suc q)
  have ge: "kOctave \<le> r + int (Suc q) * kOctave"
    using Suc.prems(1) by (simp add: kOctave_def)
  have sub: "r + int (Suc q) * kOctave - kOctave = r + int q * kOctave"
    by (simp add: algebra_simps)
  have wrap: "(octave + 1) mod 256 = octave + 1"
    using Suc.prems(3) by simp
  have "octave_loop (r + int (Suc q) * kOctave) octave =
        octave_loop (r + int q * kOctave) (octave + 1)"
    using ge by (simp only: octave_loop.simps [of "r + int (Suc q) * kOctave" octave]
        sub wrap if_True)
  also have "\<dots> = (r, (octave + 1) + q)"
    using Suc.prems by (intro Suc.IH) simp_all
  finally show ?case by simp
qed

lemma clamp_note_range: "0 \<le> clamp_note n \<and> clamp_note n < kMaxNote"
  by (simp add: clamp_note_def kMaxNote_def Let_def)

lemma octave_loop_clamped:
  "octave_loop (clamp_note n) 0 =
     (clamp_note n mod kOctave, nat (clamp_note n div kOctave))"
proof -
  define c where "c = clamp_note n"
  have r: "0 \<le> c" "c < kMaxNote"
    using clamp_note_range [of n] by (simp_all add: c_def)
  have q: "0 \<le> c div kOctave" "c div kOctave < 10"
    using r unfolding kOctave_def kMaxNote_def by simp_all
  have m: "0 \<le> c mod kOctave" "c mod kOctave < kOctave"
    by (simp_all add: kOctave_def)
  have split: "c mod kOctave + int (nat (c div kOctave)) * kOctave = c"
    using q(1) by simp
  have "octave_loop (c mod kOctave + int (nat (c div kOctave)) * kOctave) 0 =
        (c mod kOctave, 0 + nat (c div kOctave))"
    using m q by (intro octave_loop_steps) simp_all
  then have "octave_loop c 0 = (c mod kOctave, nat (c div kOctave))"
    by (simp only: split add_0)
  then show ?thesis by (simp only: c_def)
qed

lemma octave_index_bound: "snd (octave_loop (clamp_note n) 0) \<le> 9"
proof -
  have r: "0 \<le> clamp_note n" "clamp_note n < kMaxNote"
    using clamp_note_range [of n] by simp_all
  have "clamp_note n div kOctave < 10"
    using r unfolding kOctave_def kMaxNote_def by simp
  then show ?thesis by (simp add: octave_loop_clamped)
qed

lemma sdiv_nonneg: "0 \<le> (x::int) \<Longrightarrow> 0 < k \<Longrightarrow> x sdiv k = x div k"
  by (simp add: signed_divide_int_def sgn_if)

lemma sdiv_nonpos: "(x::int) \<le> 0 \<Longrightarrow> 0 < k \<Longrightarrow> x sdiv k = - ((- x) div k)"
  by (simp add: signed_divide_int_def sgn_if)

lemma interp_up_bounds:
  assumes "(a::int) \<le> b" "0 \<le> r" "r < kOctave"
  shows "a \<le> a + ((b - a) * r) sdiv kOctave \<and> a + ((b - a) * r) sdiv kOctave \<le> b"
proof -
  have k: "0 < kOctave" by (simp add: kOctave_def)
  have nn: "0 \<le> (b - a) * r" using assms by simp
  have le: "(b - a) * r \<le> (b - a) * kOctave"
    using assms by (intro mult_left_mono) simp_all
  have "((b - a) * r) div kOctave \<le> ((b - a) * kOctave) div kOctave"
    using le k by (rule zdiv_mono1)
  then have "((b - a) * r) div kOctave \<le> b - a" using k by simp
  moreover have "0 \<le> ((b - a) * r) div kOctave"
    using nn k by (simp add: pos_imp_zdiv_nonneg_iff)
  ultimately show ?thesis using sdiv_nonneg [OF nn k] by simp
qed

lemma interp_up_mono:
  assumes "(a::int) \<le> b" "0 \<le> r1" "r1 \<le> r2"
  shows "a + ((b - a) * r1) sdiv kOctave \<le> a + ((b - a) * r2) sdiv kOctave"
proof -
  have k: "0 < kOctave" by (simp add: kOctave_def)
  have n1: "0 \<le> (b - a) * r1" and n2: "0 \<le> (b - a) * r2" using assms by simp_all
  have "(b - a) * r1 \<le> (b - a) * r2"
    using assms by (intro mult_left_mono) simp_all
  then have "((b - a) * r1) div kOctave \<le> ((b - a) * r2) div kOctave"
    using k by (rule zdiv_mono1)
  then show ?thesis using sdiv_nonneg [OF n1 k] sdiv_nonneg [OF n2 k] by simp
qed

lemma interp_down_bounds:
  assumes "(b::int) \<le> a" "0 \<le> r" "r < kOctave"
  shows "b \<le> a + ((b - a) * r) sdiv kOctave \<and> a + ((b - a) * r) sdiv kOctave \<le> a"
proof -
  have k: "0 < kOctave" by (simp add: kOctave_def)
  have np: "(b - a) * r \<le> 0" using assms by (simp add: mult_nonpos_nonneg)
  have eq: "- ((b - a) * r) = (a - b) * r" by (simp add: algebra_simps)
  have nn: "0 \<le> (a - b) * r" using assms by simp
  have le: "(a - b) * r \<le> (a - b) * kOctave"
    using assms by (intro mult_left_mono) simp_all
  have "((a - b) * r) div kOctave \<le> ((a - b) * kOctave) div kOctave"
    using le k by (rule zdiv_mono1)
  then have "((a - b) * r) div kOctave \<le> a - b" using k by simp
  moreover have "0 \<le> ((a - b) * r) div kOctave"
    using nn k by (simp only: pos_imp_zdiv_nonneg_iff)
  moreover have "((b - a) * r) sdiv kOctave = - (((a - b) * r) div kOctave)"
    using sdiv_nonpos [OF np k] by (simp only: eq)
  ultimately show ?thesis by linarith
qed

lemma interp_down_mono:
  assumes "(b::int) \<le> a" "0 \<le> r1" "r1 \<le> r2"
  shows "a + ((b - a) * r2) sdiv kOctave \<le> a + ((b - a) * r1) sdiv kOctave"
proof -
  have k: "0 < kOctave" by (simp add: kOctave_def)
  have n1: "(b - a) * r1 \<le> 0" and n2: "(b - a) * r2 \<le> 0"
    using assms by (simp_all add: mult_nonpos_nonneg)
  have e1: "- ((b - a) * r1) = (a - b) * r1" and e2: "- ((b - a) * r2) = (a - b) * r2"
    by (simp_all add: algebra_simps)
  have "(a - b) * r1 \<le> (a - b) * r2"
    using assms by (intro mult_left_mono) simp_all
  then have "((a - b) * r1) div kOctave \<le> ((a - b) * r2) div kOctave"
    using k by (rule zdiv_mono1)
  moreover have "((b - a) * r1) sdiv kOctave = - (((a - b) * r1) div kOctave)"
    using sdiv_nonpos [OF n1 k] by (simp only: e1)
  moreover have "((b - a) * r2) sdiv kOctave = - (((a - b) * r2) div kOctave)"
    using sdiv_nonpos [OF n2 k] by (simp only: e2)
  ultimately show ?thesis by linarith
qed


lemma NoteToDacCode_code_at:
  assumes "kNumOctaves \<le> length tbl"
  shows "NoteToDacCode tbl n = Some (word_of_int (code_at tbl (clamp_note n)))"
proof -
  have "snd (octave_loop (clamp_note n) 0) \<le> 9" by (rule octave_index_bound)
  then have "nat (clamp_note n div kOctave) + 1 < length tbl"
    using assms by (simp add: octave_loop_clamped kNumOctaves_def)
  then show ?thesis
    by (simp add: NoteToDacCode_def octave_loop_clamped code_at_def Let_def)
qed

lemma clamp_note_mono: "n1 \<le> n2 \<Longrightarrow> clamp_note n1 \<le> clamp_note n2"
  by (simp add: clamp_note_def Let_def kMaxNote_def)

lemma octave_split:
  fixes c :: int
  assumes "0 \<le> c" "c < kMaxNote"
  shows "0 \<le> c div kOctave" "c div kOctave < 10" "0 \<le> c mod kOctave" "c mod kOctave < kOctave"
  using assms unfolding kOctave_def kMaxNote_def by simp_all

lemma code_at_up:
  assumes len: "kNumOctaves \<le> length tbl" and srt: "sorted tbl"
    and c: "0 \<le> c" "c < kMaxNote"
  shows "uint (tbl ! nat (c div kOctave)) \<le> code_at tbl c"
    and "code_at tbl c \<le> uint (tbl ! (nat (c div kOctave) + 1))"
proof -
  have q: "nat (c div kOctave) + 1 < length tbl"
    using octave_split(2) [OF c] len by (simp add: kNumOctaves_def)
  have "tbl ! nat (c div kOctave) \<le> tbl ! (nat (c div kOctave) + 1)"
    using srt q by (intro sorted_nth_mono) simp_all
  then have ab: "uint (tbl ! nat (c div kOctave)) \<le> uint (tbl ! (nat (c div kOctave) + 1))"
    by (simp add: word_le_def)
  from interp_up_bounds [OF ab octave_split(3,4) [OF c]]
  show "uint (tbl ! nat (c div kOctave)) \<le> code_at tbl c"
    and "code_at tbl c \<le> uint (tbl ! (nat (c div kOctave) + 1))"
    by (simp_all add: code_at_def Let_def)
qed

lemma code_at_down:
  assumes len: "kNumOctaves \<le> length tbl" and srt: "sorted (rev tbl)"
    and c: "0 \<le> c" "c < kMaxNote"
  shows "uint (tbl ! (nat (c div kOctave) + 1)) \<le> code_at tbl c"
    and "code_at tbl c \<le> uint (tbl ! nat (c div kOctave))"
proof -
  have q: "nat (c div kOctave) + 1 < length tbl"
    using octave_split(2) [OF c] len by (simp add: kNumOctaves_def)
  have "tbl ! (nat (c div kOctave) + 1) \<le> tbl ! nat (c div kOctave)"
    using srt q by (intro sorted_rev_nth_mono) simp_all
  then have ab: "uint (tbl ! (nat (c div kOctave) + 1)) \<le> uint (tbl ! nat (c div kOctave))"
    by (simp add: word_le_def)
  from interp_down_bounds [OF ab octave_split(3,4) [OF c]]
  show "uint (tbl ! (nat (c div kOctave) + 1)) \<le> code_at tbl c"
    and "code_at tbl c \<le> uint (tbl ! nat (c div kOctave))"
    by (simp_all add: code_at_def Let_def)
qed

lemma octave_cases:
  fixes c1 c2 :: int
  assumes "0 \<le> c1" "c1 \<le> c2"
  shows "(c1 div kOctave = c2 div kOctave \<and> c1 mod kOctave \<le> c2 mod kOctave) \<or>
         c1 div kOctave + 1 \<le> c2 div kOctave"
proof -
  have k: "0 < kOctave" by (simp add: kOctave_def)
  have le: "c1 div kOctave \<le> c2 div kOctave" using assms k by (simp add: zdiv_mono1)
  show ?thesis
  proof (cases "c1 div kOctave = c2 div kOctave")
    case True
    have "c1 = kOctave * (c1 div kOctave) + c1 mod kOctave" by simp
    moreover have "c2 = kOctave * (c2 div kOctave) + c2 mod kOctave" by simp
    ultimately have "c1 mod kOctave \<le> c2 mod kOctave"
      using assms(2) True by (metis add_le_cancel_left)
    then show ?thesis using True by simp
  next
    case False
    then show ?thesis using le by simp
  qed
qed

lemma code_at_mono_up:
  assumes len: "kNumOctaves \<le> length tbl" and srt: "sorted tbl"
    and c: "0 \<le> c1" "c1 \<le> c2" "c2 < kMaxNote"
  shows "code_at tbl c1 \<le> code_at tbl c2"
proof -
  have c1: "0 \<le> c1" "c1 < kMaxNote" and c2: "0 \<le> c2" "c2 < kMaxNote"
    using c by simp_all
  from octave_cases [OF c(1,2)] show ?thesis
  proof
    assume same: "c1 div kOctave = c2 div kOctave \<and> c1 mod kOctave \<le> c2 mod kOctave"
    have q: "nat (c2 div kOctave) + 1 < length tbl"
      using octave_split(2) [OF c2] len by (simp add: kNumOctaves_def)
    have "tbl ! nat (c2 div kOctave) \<le> tbl ! (nat (c2 div kOctave) + 1)"
      using srt q by (intro sorted_nth_mono) simp_all
    then have ab: "uint (tbl ! nat (c2 div kOctave)) \<le> uint (tbl ! (nat (c2 div kOctave) + 1))"
      by (simp add: word_le_def)
    from interp_up_mono [OF ab octave_split(3) [OF c1] conjunct2 [OF same]]
    show ?thesis using same by (simp add: code_at_def Let_def)
  next
    assume next_oct: "c1 div kOctave + 1 \<le> c2 div kOctave"
    have q2: "nat (c2 div kOctave) < length tbl"
      using octave_split(2) [OF c2] len by (simp add: kNumOctaves_def)
    have ix: "nat (c1 div kOctave) + 1 \<le> nat (c2 div kOctave)"
      using next_oct octave_split(1) [OF c1] by simp
    have "tbl ! (nat (c1 div kOctave) + 1) \<le> tbl ! nat (c2 div kOctave)"
      using srt ix q2 by (intro sorted_nth_mono) simp_all
    then have "uint (tbl ! (nat (c1 div kOctave) + 1)) \<le> uint (tbl ! nat (c2 div kOctave))"
      by (simp add: word_le_def)
    with code_at_up(2) [OF len srt c1] code_at_up(1) [OF len srt c2]
    show ?thesis by linarith
  qed
qed

lemma code_at_mono_down:
  assumes len: "kNumOctaves \<le> length tbl" and srt: "sorted (rev tbl)"
    and c: "0 \<le> c1" "c1 \<le> c2" "c2 < kMaxNote"
  shows "code_at tbl c2 \<le> code_at tbl c1"
proof -
  have c1: "0 \<le> c1" "c1 < kMaxNote" and c2: "0 \<le> c2" "c2 < kMaxNote"
    using c by simp_all
  from octave_cases [OF c(1,2)] show ?thesis
  proof
    assume same: "c1 div kOctave = c2 div kOctave \<and> c1 mod kOctave \<le> c2 mod kOctave"
    have q: "nat (c2 div kOctave) + 1 < length tbl"
      using octave_split(2) [OF c2] len by (simp add: kNumOctaves_def)
    have "tbl ! (nat (c2 div kOctave) + 1) \<le> tbl ! nat (c2 div kOctave)"
      using srt q by (intro sorted_rev_nth_mono) simp_all
    then have ab: "uint (tbl ! (nat (c2 div kOctave) + 1)) \<le> uint (tbl ! nat (c2 div kOctave))"
      by (simp add: word_le_def)
    from interp_down_mono [OF ab octave_split(3) [OF c1] conjunct2 [OF same]]
    show ?thesis using same by (simp add: code_at_def Let_def)
  next
    assume next_oct: "c1 div kOctave + 1 \<le> c2 div kOctave"
    have q2: "nat (c2 div kOctave) < length tbl"
      using octave_split(2) [OF c2] len by (simp add: kNumOctaves_def)
    have ix: "nat (c1 div kOctave) + 1 \<le> nat (c2 div kOctave)"
      using next_oct octave_split(1) [OF c1] by simp
    have "tbl ! nat (c2 div kOctave) \<le> tbl ! (nat (c1 div kOctave) + 1)"
      using srt ix q2 by (intro sorted_rev_nth_mono) simp_all
    then have "uint (tbl ! nat (c2 div kOctave)) \<le> uint (tbl ! (nat (c1 div kOctave) + 1))"
      by (simp add: word_le_def)
    with code_at_down(1) [OF len srt c1] code_at_down(2) [OF len srt c2]
    show ?thesis by linarith
  qed
qed

lemma uint_code_at:
  assumes len: "kNumOctaves \<le> length tbl" and srt: "sorted tbl \<or> sorted (rev tbl)"
    and c: "0 \<le> c" "c < kMaxNote"
  shows "uint (word_of_int (code_at tbl c) :: u16) = code_at tbl c"
proof -
  have lo: "0 \<le> uint (tbl ! i)" and hi: "uint (tbl ! i) < 65536" for i
    using uint_bounded [of "tbl ! i"] by simp_all
  have "0 \<le> code_at tbl c \<and> code_at tbl c < 65536"
    using srt
  proof
    assume "sorted tbl"
    from code_at_up [OF len this c] lo hi show ?thesis by (meson order_trans le_less_trans)
  next
    assume "sorted (rev tbl)"
    from code_at_down [OF len this c] lo hi show ?thesis by (meson order_trans le_less_trans)
  qed
  then show ?thesis by (simp add: uint_word_of_int take_bit_eq_mod)
qed


lemma default_calibration_eq:
  "default_calibration =
     [54586, 49453, 44320, 39187, 34054, 28921, 23788, 18655, 13522, 8389, 3256]"
  by (simp add: default_calibration_def kNumOctaves_def upt_rec)

section \<open>Properties of the arrays\<close>

lemma fill_length: "length (fill a i j x) = length a"
proof -
  have "length (fold (\<lambda>i xs. xs[i := x]) ks a) = length a" for ks
    by (induction ks arbitrary: a) simp_all
  then show ?thesis by (simp add: fill_def)
qed

lemma fold_update_nth:
  "k < length a \<Longrightarrow>
   fold (\<lambda>i xs. xs[i := x]) ks a ! k = (if k \<in> set ks then x else a ! k)"
  by (induction ks arbitrary: a) (auto simp: nth_list_update)

lemma fill_nth:
  "k < length a \<Longrightarrow> fill a i j x ! k = (if i \<le> k \<and> k < j then x else a ! k)"
  by (simp add: fill_def fold_update_nth)

lemma list8:
  assumes "length (xs :: 'a list) = 8"
  shows "xs = [xs ! 0, xs ! 1, xs ! 2, xs ! 3, xs ! 4, xs ! 5, xs ! 6, xs ! 7]"
proof (rule nth_equalityI)
  show "length xs = length [xs ! 0, xs ! 1, xs ! 2, xs ! 3, xs ! 4, xs ! 5, xs ! 6, xs ! 7]"
    using assms by simp
next
  fix i assume "i < length xs"
  then have "i \<in> {0, 1, 2, 3, 4, 5, 6, 7}" using assms by auto
  then show "xs ! i = [xs ! 0, xs ! 1, xs ! 2, xs ! 3, xs ! 4, xs ! 5, xs ! 6, xs ! 7] ! i"
    by auto
qed

lemma fill_mod_aux:
  assumes "length (a :: u16 list) = 8"
  shows "fill a 0 7 0 = [0, 0, 0, 0, 0, 0, 0, a ! 7]"
proof -
  have "length (fill a 0 7 0) = 8" using assms by (simp add: fill_length)
  from list8 [OF this] show ?thesis using assms by (simp add: fill_nth)
qed

section \<open>Properties of the tick\<close>

text \<open>
  Each part of \<^verbatim>\<open>Refresh\<close> leaves most members alone.
\<close>

lemma portamento_step_frame:
  "calibrated_dac_code (portamento_step v) = calibrated_dac_code v"
  "mod_aux (portamento_step v) = mod_aux v"
  "note_target (portamento_step v) = note_target v"
  "trigger_pulse (portamento_step v) = trigger_pulse v"
  "trigger_duration (portamento_step v) = trigger_duration v"
  "retrigger_delay (portamento_step v) = retrigger_delay v"
  "trigger_phase (portamento_step v) = trigger_phase v"
  "trigger_phase_increment (portamento_step v) = trigger_phase_increment v"
  "lfo_phase (portamento_step v) = lfo_phase v"
  "portamento_exponential_shape (portamento_step v) = portamento_exponential_shape v"
  by (simp_all add: portamento_step_def Let_def)

lemma lfo_step_frame:
  "calibrated_dac_code (lfo_step L v) = calibrated_dac_code v"
  "mod_aux (lfo_step L v) = mod_aux v"
  "note_source (lfo_step L v) = note_source v"
  "note_target (lfo_step L v) = note_target v"
  "note_portamento (lfo_step L v) = note_portamento v"
  "portamento_phase (lfo_step L v) = portamento_phase v"
  "portamento_phase_increment (lfo_step L v) = portamento_phase_increment v"
  "portamento_exponential_shape (lfo_step L v) = portamento_exponential_shape v"
  "trigger_pulse (lfo_step L v) = trigger_pulse v"
  "trigger_duration (lfo_step L v) = trigger_duration v"
  "retrigger_delay (lfo_step L v) = retrigger_delay v"
  "trigger_phase (lfo_step L v) = trigger_phase v"
  "trigger_phase_increment (lfo_step L v) = trigger_phase_increment v"
  by (simp_all add: lfo_step_def)

lemma mod_aux_step_frame:
  "calibrated_dac_code (mod_aux_step x v) = calibrated_dac_code v"
  "note_source (mod_aux_step x v) = note_source v"
  "note_target (mod_aux_step x v) = note_target v"
  "note_portamento (mod_aux_step x v) = note_portamento v"
  "portamento_phase (mod_aux_step x v) = portamento_phase v"
  "portamento_phase_increment (mod_aux_step x v) = portamento_phase_increment v"
  "portamento_exponential_shape (mod_aux_step x v) = portamento_exponential_shape v"
  "trigger_pulse (mod_aux_step x v) = trigger_pulse v"
  "trigger_duration (mod_aux_step x v) = trigger_duration v"
  "retrigger_delay (mod_aux_step x v) = retrigger_delay v"
  "trigger_phase (mod_aux_step x v) = trigger_phase v"
  "trigger_phase_increment (mod_aux_step x v) = trigger_phase_increment v"
  "lfo_phase (mod_aux_step x v) = lfo_phase v"
  by (simp_all add: mod_aux_step_def Let_def)

lemma mod_aux_step_aux:
  "length (mod_aux (mod_aux_step x v)) = length (mod_aux v)"
  "mod_aux (mod_aux_step x v) ! 2 = mod_aux v ! 2"
  by (simp_all add: mod_aux_step_def Let_def)

lemma trigger_step_frame:
  "calibrated_dac_code (trigger_step v) = calibrated_dac_code v"
  "mod_aux (trigger_step v) = mod_aux v"
  "note_source (trigger_step v) = note_source v"
  "note_target (trigger_step v) = note_target v"
  "note_portamento (trigger_step v) = note_portamento v"
  "portamento_phase (trigger_step v) = portamento_phase v"
  "portamento_phase_increment (trigger_step v) = portamento_phase_increment v"
  "portamento_exponential_shape (trigger_step v) = portamento_exponential_shape v"
  "trigger_duration (trigger_step v) = trigger_duration v"
  "lfo_phase (trigger_step v) = lfo_phase v"
  by (simp_all add: trigger_step_def Let_def)

lemma trigger_step_countdowns:
  "trigger_pulse (trigger_step v) = (if trigger_pulse v \<noteq> 0 then trigger_pulse v - 1 else 0)"
  "retrigger_delay (trigger_step v) =
     (if retrigger_delay v \<noteq> 0 then retrigger_delay v - 1 else 0)"
  by (simp_all add: trigger_step_def Let_def)

lemmas step_frames =
  portamento_step_frame lfo_step_frame mod_aux_step_frame trigger_step_frame

lemma Refresh_update_frame:
  "calibrated_dac_code (fst (Refresh_update L v)) = calibrated_dac_code v"
  "length (mod_aux (fst (Refresh_update L v))) = length (mod_aux v)"
  "mod_aux (fst (Refresh_update L v)) ! 2 = mod_aux v ! 2"
  "trigger_duration (fst (Refresh_update L v)) = trigger_duration v"
  "note_target (fst (Refresh_update L v)) = note_target v"
  "portamento_exponential_shape (fst (Refresh_update L v)) = portamento_exponential_shape v"
  by (simp_all add: Refresh_update_def Let_def step_frames mod_aux_step_aux)

lemma Refresh_update_glide:
  "note_source (fst (Refresh_update L v)) = note_source (portamento_step v)"
  "portamento_phase (fst (Refresh_update L v)) = portamento_phase (portamento_step v)"
  "portamento_phase_increment (fst (Refresh_update L v)) =
     portamento_phase_increment (portamento_step v)"
  "note_portamento (fst (Refresh_update L v)) =
     note_source (portamento_step v) +
     signed_drop_bit 16
       ((note_target v - note_source (portamento_step v)) *
        ucast (portamento_level L (portamento_step v)))"
  by (simp_all add: Refresh_update_def Let_def step_frames)

lemma Refresh_update_trigger:
  "trigger_pulse (fst (Refresh_update L v)) =
     (if trigger_pulse v \<noteq> 0 then trigger_pulse v - 1 else 0)"
  "retrigger_delay (fst (Refresh_update L v)) =
     (if retrigger_delay v \<noteq> 0 then retrigger_delay v - 1 else 0)"
  "trigger_phase (fst (Refresh_update L v)) = trigger_phase (trigger_step v)"
  "trigger_phase_increment (fst (Refresh_update L v)) = trigger_phase_increment (trigger_step v)"
  by (simp_all add: Refresh_update_def Let_def step_frames trigger_step_countdowns
      trigger_step_def)

lemma Refresh_update_lfo:
  "lfo_phase (fst (Refresh_update L v)) = lfo_phase (lfo_step L v)"
  by (simp add: Refresh_update_def Let_def step_frames lfo_step_def portamento_step_def)

text \<open>
  What a successful \<^verbatim>\<open>Refresh\<close> returns, and that it does return on a full table.
\<close>

lemma Refresh_SomeD:
  assumes "Refresh L v = Some v'"
  shows "\<exists>c n d. v' = (fst (Refresh_update L v))\<lparr>note_dac_code := c, current_note := n, dirty := d\<rparr>"
proof (cases "Refresh_update L v")
  case (Pair w n)
  show ?thesis
  proof (cases "n \<noteq> current_note w \<or> dirty w")
    case True
    then obtain c where "v' = w\<lparr>note_dac_code := c, current_note := n, dirty := False\<rparr>"
      using assms Pair by (auto simp: Refresh_def split: option.splits)
    then show ?thesis using Pair by auto
  next
    case False
    then have "v' = w" using assms Pair by (simp add: Refresh_def)
    then have "v' = w\<lparr>note_dac_code := note_dac_code w, current_note := current_note w,
        dirty := dirty w\<rparr>" by simp
    then show ?thesis using Pair by (metis fst_conv)
  qed
qed

lemma Refresh_total:
  assumes "kNumOctaves \<le> length (calibrated_dac_code v)"
  shows "\<exists>v'. Refresh L v = Some v'"
proof (cases "Refresh_update L v")
  case (Pair w n)
  have "calibrated_dac_code w = calibrated_dac_code v"
    using Refresh_update_frame(1) [of L v] Pair by simp
  then have "kNumOctaves \<le> length (calibrated_dac_code w)" using assms by simp
  from NoteToDacCode_code_at [OF this] show ?thesis
    using Pair by (simp add: Refresh_def)
qed

lemma Refresh_fields:
  assumes "Refresh L v = Some v'"
  shows "calibrated_dac_code v' = calibrated_dac_code v"
    and "length (mod_aux v') = length (mod_aux v)"
    and "mod_aux v' ! 2 = mod_aux v ! 2"
    and "trigger_duration v' = trigger_duration v"
    and "note_target v' = note_target v"
    and "portamento_exponential_shape v' = portamento_exponential_shape v"
    and "note_source v' = note_source (portamento_step v)"
    and "portamento_phase v' = portamento_phase (portamento_step v)"
    and "portamento_phase_increment v' = portamento_phase_increment (portamento_step v)"
    and "note_portamento v' =
           note_source (portamento_step v) +
           signed_drop_bit 16
             ((note_target v - note_source (portamento_step v)) *
              ucast (portamento_level L (portamento_step v)))"
    and "trigger_pulse v' = (if trigger_pulse v \<noteq> 0 then trigger_pulse v - 1 else 0)"
    and "retrigger_delay v' = (if retrigger_delay v \<noteq> 0 then retrigger_delay v - 1 else 0)"
    and "trigger_phase v' = trigger_phase (trigger_step v)"
    and "trigger_phase_increment v' = trigger_phase_increment (trigger_step v)"
    and "lfo_phase v' = lfo_phase (lfo_step L v)"
proof -
  from Refresh_SomeD [OF assms] obtain c n d where
    v': "v' = (fst (Refresh_update L v))\<lparr>note_dac_code := c, current_note := n, dirty := d\<rparr>"
    by blast
  show "calibrated_dac_code v' = calibrated_dac_code v"
    and "length (mod_aux v') = length (mod_aux v)"
    and "mod_aux v' ! 2 = mod_aux v ! 2"
    and "trigger_duration v' = trigger_duration v"
    and "note_target v' = note_target v"
    and "portamento_exponential_shape v' = portamento_exponential_shape v"
    by (simp_all add: v' Refresh_update_frame)
  show "note_source v' = note_source (portamento_step v)"
    and "portamento_phase v' = portamento_phase (portamento_step v)"
    and "portamento_phase_increment v' = portamento_phase_increment (portamento_step v)"
    and "note_portamento v' =
           note_source (portamento_step v) +
           signed_drop_bit 16
             ((note_target v - note_source (portamento_step v)) *
              ucast (portamento_level L (portamento_step v)))"
    by (simp_all add: v' Refresh_update_glide)
  show "trigger_pulse v' = (if trigger_pulse v \<noteq> 0 then trigger_pulse v - 1 else 0)"
    and "retrigger_delay v' = (if retrigger_delay v \<noteq> 0 then retrigger_delay v - 1 else 0)"
    and "trigger_phase v' = trigger_phase (trigger_step v)"
    and "trigger_phase_increment v' = trigger_phase_increment (trigger_step v)"
    by (simp_all add: v' Refresh_update_trigger)
  show "lfo_phase v' = lfo_phase (lfo_step L v)"
    by (simp add: v' Refresh_update_lfo)
qed

lemma portamento_step_no_wrap:
  assumes "\<not> portamento_phase v + portamento_phase_increment v < portamento_phase_increment v"
  shows "note_source (portamento_step v) = note_source v"
    and "portamento_phase_increment (portamento_step v) = portamento_phase_increment v"
    and "portamento_phase (portamento_step v) = portamento_phase v + portamento_phase_increment v"
  using assms by (simp_all add: portamento_step_def Let_def)

section \<open>Properties of the oscillator\<close>

lemma sint_of_int_32:
  assumes "- (2 ^ 31) \<le> k" "k < 2 ^ 31"
  shows "sint (word_of_int k :: 32 word) = k"
  using assms by (simp add: sint_sbintrunc' signed_take_bit_int_eq_self)

lemma drop_bit_15_32:
  fixes p :: u32
  shows "drop_bit 15 p = word_of_int (int (unat p div 2 ^ 15))"
    and "unat p div 2 ^ 15 < 2 ^ 17"
proof -
  have "unat (drop_bit 15 p) = unat p div 2 ^ 15"
    unfolding unat_drop_bit_eq by (simp add: drop_bit_eq_div)
  then have "drop_bit 15 p = word_of_nat (unat p div 2 ^ 15)"
    by (metis of_nat_unat ucast_id)
  then show "drop_bit 15 p = word_of_int (int (unat p div 2 ^ 15))" by simp
  have "unat p < 2 ^ 32" using unsigned_less [of p, where 'a = nat] by simp
  then show "unat p div 2 ^ 15 < 2 ^ 17" by simp
qed

lemma lfo_value_sint:
  "sint (lfo_value p) =
     (if unat p < 2 ^ 31 then int (unat p div 2 ^ 15) - 32768
      else 98303 - int (unat p div 2 ^ 15))"
proof -
  define X where "X = int (unat p div 2 ^ 15)"
  have X: "0 \<le> X" "X < 2 ^ 17" using drop_bit_15_32(2) [of p] by (simp_all add: X_def)
  have d: "drop_bit 15 p = (word_of_int X :: u32)" using drop_bit_15_32(1) [of p] by (simp add: X_def)
  have lt: "p < 2 ^ 31 \<longleftrightarrow> unat p < 2 ^ 31"
    by (simp add: word_less_nat_alt)
  have up: "- 32768 + drop_bit 15 p = (word_of_int (X - 32768) :: u32)" by (simp add: d)
  have dn: "0x17fff - drop_bit 15 p = (word_of_int (98303 - X) :: u32)" by (simp add: d)
  have s1: "sint (word_of_int (X - 32768) :: u32) = X - 32768"
    using X by (intro sint_of_int_32) simp_all
  have s2: "sint (word_of_int (98303 - X) :: u32) = 98303 - X"
    using X by (intro sint_of_int_32) simp_all
  show ?thesis
    unfolding lfo_value_def lt up dn X_def [symmetric] using s1 s2 by simp
qed

lemma lfo_value_range: "- 32768 \<le> sint (lfo_value p) \<and> sint (lfo_value p) \<le> 32767"
proof -
  have b: "unat p div 2 ^ 15 < 2 ^ 17" by (rule drop_bit_15_32(2))
  show ?thesis
  proof (cases "unat p < 2 ^ 31")
    case True
    then have "unat p div 2 ^ 15 < 2 ^ 16" by simp
    then show ?thesis using True by (simp add: lfo_value_sint)
  next
    case False
    then have "2 ^ 16 \<le> unat p div 2 ^ 15" by simp
    then show ?thesis using False b by (simp add: lfo_value_sint)
  qed
qed

lemma lfo_value_mirror: "lfo_value (- 1 - p) = lfo_value p"
proof -
  have P: "unat p < 2 ^ 32" using unsigned_less [of p, where 'a = nat] by simp
  have "unat (- 1 - p) = unat (- 1 :: u32) - unat p"
    by (intro unat_sub) simp
  then have u: "unat (- 1 - p) = 4294967295 - unat p"
    by (simp add: unsigned_minus_1_eq_mask mask_eq_exp_minus_1)
  have dv: "(4294967295 - unat p) div 32768 = 131071 - unat p div 32768"
    using P by simp
  have "sint (lfo_value (- 1 - p)) = sint (lfo_value p)"
    using P drop_bit_15_32(2) [of p] by (simp add: lfo_value_sint u dv) 
  then show ?thesis by (simp only: signed_word_eqI)
qed

section \<open>Properties of the events\<close>

lemma glide_setup_frame:
  "note_source (glide_setup L p v) = note_source v"
  "note_target (glide_setup L p v) = note_target v"
  "note_portamento (glide_setup L p v) = note_portamento v"
  "portamento_phase (glide_setup L p v) = portamento_phase v"
  "calibrated_dac_code (glide_setup L p v) = calibrated_dac_code v"
  "mod_aux (glide_setup L p v) = mod_aux v"
  "gate (glide_setup L p v) = gate v"
  "retrigger_delay (glide_setup L p v) = retrigger_delay v"
  "trigger_pulse (glide_setup L p v) = trigger_pulse v"
  "trigger_duration (glide_setup L p v) = trigger_duration v"
  "trigger_phase (glide_setup L p v) = trigger_phase v"
  "trigger_phase_increment (glide_setup L p v) = trigger_phase_increment v"
  by (simp_all add: glide_setup_def Let_def)

lemma NoteOn_fields:
  "note_target (NoteOn L n vel p trg v) = scast n"
  "note_source (NoteOn L n vel p trg v) = (if p = 0 then scast n else note_portamento v)"
  "portamento_phase (NoteOn L n vel p trg v) = 0"
  "calibrated_dac_code (NoteOn L n vel p trg v) = calibrated_dac_code v"
  "mod_aux (NoteOn L n vel p trg v) = mod_aux v"
  "trigger_duration (NoteOn L n vel p trg v) = trigger_duration v"
  "gate (NoteOn L n vel p trg v) = True"
  "retrigger_delay (NoteOn L n vel p trg v) =
     (if gate v \<and> trg then 2 else retrigger_delay v)"
  "trigger_pulse (NoteOn L n vel p trg v) =
     (if trg then word_of_nat (unat (trigger_duration v) * 8) else trigger_pulse v)"
  "trigger_phase (NoteOn L n vel p trg v) = (if trg then 0 else trigger_phase v)"
  "trigger_phase_increment (NoteOn L n vel p trg v) =
     (if trg then lut_portamento_increments L (unat (trigger_duration v))
      else trigger_phase_increment v)"
  by (simp_all add: NoteOn_def Let_def glide_setup_frame)

lemma NoteOn_increment:
  "portamento_phase_increment (NoteOn L n vel p trg v) =
     portamento_phase_increment
       (glide_setup L p
          (v\<lparr>note_source := (if p = 0 then scast n else note_portamento v),
             note_target := scast n, portamento_phase := 0\<rparr>))"
  by (simp add: NoteOn_def Let_def glide_setup_def)

lemma abs_i32_plus_one: "abs_i32 x + 1 \<noteq> 0"
proof
  assume "abs_i32 x + 1 = 0"
  then have m: "abs_i32 x = - 1" by (simp add: add_eq_0_iff2)
  show False
  proof (cases "x <s 0")
    case True
    then have "x = 1" using m by (simp add: abs_i32_def)
    then show False using True by (simp add: word_sless_alt)
  next
    case False
    then have "x = - 1" using m by (simp add: abs_i32_def)
    then show False using False by (simp add: word_sless_alt)
  qed
qed

lemma CONSTRAIN_range:
  "1 \<le> CONSTRAIN x 1 2147483647 \<and> CONSTRAIN x 1 2147483647 \<le> 2147483647"
  by (simp add: CONSTRAIN_def word_le_nat_alt word_less_nat_alt) 

lemma ControlChange_fields:
  "calibrated_dac_code (ControlChange c x v) = calibrated_dac_code v"
  "length (mod_aux (ControlChange c x v)) = length (mod_aux v)"
  "mod_aux (ControlChange c x v) ! 2 = mod_aux v ! 2"
  "retrigger_delay (ControlChange c x v) = retrigger_delay v"
  "trigger_phase (ControlChange c x v) = trigger_phase v"
  "trigger_phase_increment (ControlChange c x v) = trigger_phase_increment v"
  by (simp_all add: ControlChange_def)

lemma NoteOff_fields:
  "calibrated_dac_code (NoteOff v) = calibrated_dac_code v"
  "mod_aux (NoteOff v) = mod_aux v"
  "retrigger_delay (NoteOff v) = retrigger_delay v"
  "trigger_phase (NoteOff v) = trigger_phase v"
  "trigger_phase_increment (NoteOff v) = trigger_phase_increment v"
  by (simp_all add: NoteOff_def)

section \<open>Invariants of runs\<close>

text \<open>
  An invariant kept by every event is kept by every run, and every run returns.
\<close>

lemma run_invariant:
  assumes step: "\<And>v e. I v \<Longrightarrow> \<exists>v'. apply_event L v e = Some v' \<and> I v'"
    and init: "I v"
  shows "\<exists>v'. run L v es = Some v' \<and> I v'"
  using init
proof (induction es arbitrary: v)
  case Nil
  then show ?case by simp
next
  case (Cons e es)
  from step [OF Cons.prems] obtain w where w: "apply_event L v e = Some w" "I w" by blast
  from Cons.IH [OF w(2)] show ?case by (simp add: w(1))
qed

lemma apply_event_aux2:
  assumes "kNumOctaves \<le> length (calibrated_dac_code v) \<and> mod_aux v ! 2 = x"
  shows "\<exists>v'. apply_event L v e = Some v' \<and>
           (kNumOctaves \<le> length (calibrated_dac_code v') \<and> mod_aux v' ! 2 = x)"
proof (cases e)
  case (EvNoteOn n vel p trg)
  then show ?thesis using assms by (simp add: NoteOn_fields)
next
  case EvNoteOff
  then show ?thesis using assms by (simp add: NoteOff_fields)
next
  case (EvControlChange c y)
  then show ?thesis using assms by (simp add: ControlChange_fields)
next
  case EvRefresh
  from Refresh_total [of v L] assms obtain v' where r: "Refresh L v = Some v'" by blast
  show ?thesis using EvRefresh assms r by (simp add: Refresh_fields [OF r])
qed

lemma portamento_step_settled:
  assumes "glide_settled inc v"
  shows "glide_settled inc
           (v\<lparr>note_source := note_source (portamento_step v),
              portamento_phase_increment := portamento_phase_increment (portamento_step v)\<rparr>)"
proof (cases "portamento_phase v + portamento_phase_increment v < portamento_phase_increment v")
  case True
  then show ?thesis by (simp add: glide_settled_def portamento_step_def Let_def)
next
  case False
  from portamento_step_no_wrap(1,2) [OF False] assms
  show ?thesis by (simp add: glide_settled_def)
qed

lemma Refresh_settled:
  assumes "Refresh L v = Some v'" and "glide_settled inc v"
  shows "glide_settled inc v'"
  using portamento_step_settled [OF assms(2)]
  by (simp add: glide_settled_def Refresh_fields [OF assms(1)])

lemma Refresh_n_settled:
  assumes "kNumOctaves \<le> length (calibrated_dac_code v)" and "glide_settled inc v"
  shows "\<exists>vk. Refresh_n L k v = Some vk \<and> glide_settled inc vk"
  using assms
proof (induction k arbitrary: v)
  case 0
  then show ?case by simp
next
  case (Suc k)
  from Refresh_total [OF Suc.prems(1)] obtain v' where r: "Refresh L v = Some v'" by blast
  have t: "kNumOctaves \<le> length (calibrated_dac_code v')"
    using Suc.prems(1) by (simp add: Refresh_fields(1) [OF r])
  from Suc.IH [OF t Refresh_settled [OF r Suc.prems(2)]] show ?case
    by (simp add: r)
qed

lemma Refresh_n_pulse:
  assumes "kNumOctaves \<le> length (calibrated_dac_code v)"
  shows "\<exists>vk. Refresh_n L k v = Some vk \<and> unat (trigger_pulse vk) = unat (trigger_pulse v) - k"
  using assms
proof (induction k arbitrary: v)
  case 0
  then show ?case by simp
next
  case (Suc k)
  from Refresh_total [OF Suc.prems] obtain v' where r: "Refresh L v = Some v'" by blast
  have t: "kNumOctaves \<le> length (calibrated_dac_code v')"
    using Suc.prems by (simp add: Refresh_fields(1) [OF r])
  have one: "unat (trigger_pulse v') = unat (trigger_pulse v) - 1"
    by (simp add: Refresh_fields(11) [OF r] unat_minus_one)
  from Suc.IH [OF t] obtain vk where
    "Refresh_n L k v' = Some vk" "unat (trigger_pulse vk) = unat (trigger_pulse v') - k"
    by blast
  then show ?case using one by (simp add: r)
qed

lemma trigger_step_gap:
  assumes "gap_inv v"
  shows "gap_inv (v\<lparr>retrigger_delay := retrigger_delay (trigger_step v),
                   trigger_phase := trigger_phase (trigger_step v),
                   trigger_phase_increment := trigger_phase_increment (trigger_step v)\<rparr>)"
  using assms by (auto simp: gap_inv_def trigger_step_def Let_def)

lemma Refresh_gap:
  assumes "Refresh L v = Some v'" and "gap_inv v"
  shows "gap_inv v'"
  using trigger_step_gap [OF assms(2)]
  by (simp add: gap_inv_def Refresh_fields [OF assms(1)] trigger_step_countdowns)

lemma NoteOn_gap: "gap_inv v \<Longrightarrow> gap_inv (NoteOn L n vel p trg v)"
  by (auto simp: gap_inv_def NoteOn_fields)

lemma apply_event_gap:
  assumes "calibrated_dac_code v = tbl \<and> kNumOctaves \<le> length tbl \<and> gap_inv v"
  shows "\<exists>v'. apply_event L v e = Some v' \<and>
           (calibrated_dac_code v' = tbl \<and> kNumOctaves \<le> length tbl \<and> gap_inv v')"
proof (cases e)
  case (EvNoteOn n vel p trg)
  then show ?thesis using assms by (simp add: NoteOn_fields NoteOn_gap)
next
  case EvNoteOff
  then show ?thesis using assms by (simp add: NoteOff_fields gap_inv_def)
next
  case (EvControlChange c y)
  then show ?thesis using assms by (simp add: ControlChange_fields gap_inv_def)
next
  case EvRefresh
  from Refresh_total [of v L] assms obtain v' where r: "Refresh L v = Some v'" by blast
  show ?thesis using EvRefresh assms r Refresh_gap [OF r] by (simp add: Refresh_fields(1) [OF r])
qed

lemma gap_rest_code:
  assumes "gap_inv v" and "retrigger_delay v \<noteq> 0" and "kNumOctaves \<le> length (calibrated_dac_code v)"
  shows "trigger_dac_code L v = Some (calibrated_dac_code v ! 3)"
proof -
  have "trigger_phase v \<le> trigger_phase_increment v"
    using assms(1,2) by (auto simp: gap_inv_def)
  then show ?thesis using assms(3) by (simp add: trigger_dac_code_def kNumOctaves_def)
qed

lemma sample_voice_table: "kNumOctaves \<le> length (calibrated_dac_code sample_voice)"
  by (simp add: sample_voice_def default_calibration_def)

section \<open>The claims\<close>

subsection \<open>Quantisation\<close>

text \<open>
  Claim C2.  \<^verbatim>\<open>NoteToDacCode\<close> clamps before the octave decomposition: every note
  \<open>lo \<le> 0\<close> gives the code of note 0, which is the first table entry; every note
  \<open>hi \<ge> kMaxNote\<close> gives the code of note \<open>kMaxNote - 1\<close>, interpolated in the
  last bracket (entries 9 and 10, remainder 1535); and for every note \<open>n\<close> the larger
  index read, \<open>octave + 1\<close>, is at most the table size minus one, so that a code is
  returned.
\<close>

theorem NoteToDacCode_boundary_clamp:
  assumes "length tbl = kNumOctaves" and "lo \<le> 0" and "kMaxNote \<le> hi"
  shows "NoteToDacCode tbl lo = NoteToDacCode tbl 0 \<and>
         NoteToDacCode tbl lo = Some (tbl ! 0) \<and>
         NoteToDacCode tbl hi = NoteToDacCode tbl (kMaxNote - 1) \<and>
         NoteToDacCode tbl hi =
           Some (word_of_int (uint (tbl ! 9) + ((uint (tbl ! 10) - uint (tbl ! 9)) * 1535) sdiv 1536)) \<and>
         NoteToDacCode tbl n \<noteq> None \<and>
         snd (octave_loop (clamp_note n) 0) + 1 \<le> length tbl - 1"
proof -
  have len: "kNumOctaves \<le> length tbl" using assms(1) by simp
  have lo: "clamp_note lo = 0" using assms(2) by (simp add: clamp_note_def kMaxNote_def)
  have z: "clamp_note 0 = 0" by (simp add: clamp_note_def kMaxNote_def)
  have hi: "clamp_note hi = 15359"
    using assms(3) by (simp add: clamp_note_def kMaxNote_def Let_def)
  have top: "clamp_note (kMaxNote - 1) = 15359"
    by (simp add: clamp_note_def kMaxNote_def Let_def)
  have c0: "code_at tbl 0 = uint (tbl ! 0)"
    by (simp add: code_at_def kOctave_def)
  have ctop: "code_at tbl 15359 =
      uint (tbl ! 9) + ((uint (tbl ! 10) - uint (tbl ! 9)) * 1535) sdiv 1536"
    by (simp add: code_at_def kOctave_def Let_def)
  have ix: "snd (octave_loop (clamp_note n) 0) + 1 \<le> length tbl - 1"
    using octave_index_bound [of n] assms(1) by (simp add: kNumOctaves_def)
  show ?thesis
    using ix by (simp add: NoteToDacCode_code_at [OF len] lo z hi top c0 ctop)
qed


theorem NoteToDacCode_boundary_clamp_witness:
  "length default_calibration = kNumOctaves \<and> (- 5 :: int) \<le> 0 \<and> kMaxNote \<le> 20000 \<and>
   NoteToDacCode default_calibration (- 5) = Some 54586 \<and>
   NoteToDacCode default_calibration 0 = Some 54586 \<and>
   NoteToDacCode default_calibration 20000 = Some 3260 \<and>
   NoteToDacCode default_calibration (kMaxNote - 1) = Some 3260 \<and>
   snd (octave_loop (clamp_note 20000) 0) + 1 \<le> length default_calibration - 1"
proof -
  have len: "length default_calibration = kNumOctaves"
    by (simp add: default_calibration_def)
  have lo: "(- 5 :: int) \<le> 0" by simp
  have hi: "kMaxNote \<le> 20000" by (simp add: kMaxNote_def)
  have z: "NoteToDacCode default_calibration 0 = Some 54586" by code_simp
  have t: "NoteToDacCode default_calibration (kMaxNote - 1) = Some 3260" by code_simp
  from NoteToDacCode_boundary_clamp [OF len lo hi, of 20000] z t len lo hi
  show ?thesis by simp
qed

text \<open>
  Claim C1, as amended.  The quantisation preserves the order of the table in its own
  direction: on a table whose codes never fall along the octaves, \<open>n1 \<le> n2\<close> gives
  codes \<open>u1 \<le> u2\<close>; on a table whose codes never rise (such as the one written by
  \<^verbatim>\<open>Init\<close>), it gives \<open>d2 \<le> d1\<close>.
\<close>

theorem NoteToDacCode_order:
  assumes "length up = kNumOctaves" and "sorted up"
    and "length down = kNumOctaves" and "sorted (rev down)"
    and "n1 \<le> n2"
  shows "\<exists>u1 u2 d1 d2.
           NoteToDacCode up n1 = Some u1 \<and> NoteToDacCode up n2 = Some u2 \<and> u1 \<le> u2 \<and>
           NoteToDacCode down n1 = Some d1 \<and> NoteToDacCode down n2 = Some d2 \<and> d2 \<le> d1"
proof -
  have lu: "kNumOctaves \<le> length up" and ld: "kNumOctaves \<le> length down"
    using assms by simp_all
  have r1: "0 \<le> clamp_note n1" "clamp_note n1 < kMaxNote"
    and r2: "0 \<le> clamp_note n2" "clamp_note n2 < kMaxNote"
    using clamp_note_range by simp_all
  have le: "clamp_note n1 \<le> clamp_note n2" using assms(5) by (rule clamp_note_mono)
  have su: "sorted up \<or> sorted (rev up)" and sd: "sorted down \<or> sorted (rev down)"
    using assms by simp_all
  have "code_at up (clamp_note n1) \<le> code_at up (clamp_note n2)"
    using lu assms(2) r1(1) le r2(2) by (rule code_at_mono_up)
  then have u: "(word_of_int (code_at up (clamp_note n1)) :: u16)
        \<le> word_of_int (code_at up (clamp_note n2))"
    by (simp add: word_le_def uint_code_at [OF lu su r1] uint_code_at [OF lu su r2])
  have "code_at down (clamp_note n2) \<le> code_at down (clamp_note n1)"
    using ld assms(4) r1(1) le r2(2) by (rule code_at_mono_down)
  then have d: "(word_of_int (code_at down (clamp_note n2)) :: u16)
        \<le> word_of_int (code_at down (clamp_note n1))"
    by (simp add: word_le_def uint_code_at [OF ld sd r1] uint_code_at [OF ld sd r2])
  show ?thesis
    using u d by (simp add: NoteToDacCode_code_at [OF lu] NoteToDacCode_code_at [OF ld])
qed

theorem NoteToDacCode_order_witness:
  "length (rev default_calibration) = kNumOctaves \<and> sorted (rev default_calibration) \<and>
   length default_calibration = kNumOctaves \<and> (700 :: int) \<le> 2000 \<and>
   NoteToDacCode (rev default_calibration) 700 = Some 5595 \<and>
   NoteToDacCode (rev default_calibration) 2000 = Some 9939 \<and>
   (5595 :: u16) \<le> 9939 \<and>
   NoteToDacCode default_calibration 700 = Some 52247 \<and>
   NoteToDacCode default_calibration 2000 = Some 47903 \<and>
   (47903 :: u16) \<le> 52247"
proof -
  have len: "length default_calibration = kNumOctaves"
    by (simp add: default_calibration_def)
  have lenr: "length (rev default_calibration) = kNumOctaves"
    using len by simp
  have s: "sorted (rev default_calibration)"
    by (simp add: default_calibration_eq)
  have n: "(700 :: int) \<le> 2000" by simp
  have e: "NoteToDacCode (rev default_calibration) 700 = Some 5595"
      "NoteToDacCode (rev default_calibration) 2000 = Some 9939"
      "NoteToDacCode default_calibration 700 = Some 52247"
      "NoteToDacCode default_calibration 2000 = Some 47903"
    by code_simp+
  from NoteToDacCode_order [OF lenr s len s n] e len lenr s
  show ?thesis by simp
qed

text \<open>
  The table written by \<^verbatim>\<open>Init\<close> is monotonic (strictly falling), and on it the
  code of note 0 exceeds the code of note 1536: order is reversed, not preserved.
\<close>

theorem NoteToDacCode_order_counterexample:
  "monotonic_table default_calibration \<and> (0 :: int) < 1536 \<and> 1536 < kMaxNote \<and>
   NoteToDacCode default_calibration 0 = Some 54586 \<and>
   NoteToDacCode default_calibration 1536 = Some 49453 \<and>
   \<not> (54586 :: u16) \<le> 49453"
proof -
  have "sorted (rev default_calibration)" by (simp add: default_calibration_eq)
  moreover have "NoteToDacCode default_calibration 0 = Some 54586" by code_simp
  moreover have "NoteToDacCode default_calibration 1536 = Some 49453" by code_simp
  ultimately show ?thesis by (simp add: monotonic_table_def kMaxNote_def)
qed

subsection \<open>Glide\<close>

text \<open>
  Claim C3.  On the tick in which the glide phase wraps (the phase after the addition is
  unsignedly below the increment just added), \<^verbatim>\<open>Refresh\<close> returns a voice whose
  glide phase and increment are both zero, whose source is the target, and whose
  interpolated pitch \<open>note_portamento\<close> is exactly the target.
\<close>

theorem glide_completion:
  assumes tbl: "kNumOctaves \<le> length (calibrated_dac_code v)"
    and wrap: "portamento_phase v + portamento_phase_increment v < portamento_phase_increment v"
  shows "\<exists>v'. Refresh L v = Some v' \<and>
           portamento_phase v' = 0 \<and>
           portamento_phase_increment v' = 0 \<and>
           note_source v' = note_target v \<and>
           note_target v' = note_target v \<and>
           note_portamento v' = note_target v"
proof -
  from Refresh_total [OF tbl] obtain v' where r: "Refresh L v = Some v'" by blast
  have p: "portamento_phase (portamento_step v) = 0"
      "portamento_phase_increment (portamento_step v) = 0"
      "note_source (portamento_step v) = note_target v"
    using wrap by (simp_all add: portamento_step_def Let_def)
  show ?thesis
    using r by (simp add: Refresh_fields [OF r] p)
qed

theorem glide_completion_witness:
  "kNumOctaves \<le> length (calibrated_dac_code sample_voice) \<and>
   portamento_phase sample_voice + portamento_phase_increment sample_voice
     < portamento_phase_increment sample_voice \<and>
   (\<exists>v'. Refresh sample_resources sample_voice = Some v' \<and>
         portamento_phase v' = 0 \<and> portamento_phase_increment v' = 0 \<and>
         note_source v' = 8192 \<and> note_target v' = 8192 \<and> note_portamento v' = 8192)"
proof -
  have w: "portamento_phase sample_voice + portamento_phase_increment sample_voice
      < portamento_phase_increment sample_voice"
    by (simp add: sample_voice_def)
  have t: "note_target sample_voice = 8192" by (simp add: sample_voice_def)
  from glide_completion [OF sample_voice_table w, of sample_resources]
  show ?thesis using sample_voice_table w by (simp add: t)
qed

text \<open>
  Claim C4.  \<^verbatim>\<open>NoteOn\<close> with portamento zero sets source and target to the new
  note, and one \<^verbatim>\<open>Refresh\<close> later the interpolated pitch is the new note; with a
  non-zero portamento it sets the target to the new note and the source to the
  interpolated pitch \<open>note_portamento\<close> held at that moment.
\<close>

theorem NoteOn_glide_source:
  assumes tbl: "kNumOctaves \<le> length (calibrated_dac_code v)" and p: "portamento \<noteq> 0"
  shows "note_target (NoteOn L n vel 0 trg v) = scast n \<and>
         note_source (NoteOn L n vel 0 trg v) = scast n \<and>
         (\<exists>v'. Refresh L (NoteOn L n vel 0 trg v) = Some v' \<and> note_portamento v' = scast n) \<and>
         note_target (NoteOn L n vel portamento trg v) = scast n \<and>
         note_source (NoteOn L n vel portamento trg v) = note_portamento v"
proof -
  let ?w = "NoteOn L n vel 0 trg v"
  have "kNumOctaves \<le> length (calibrated_dac_code ?w)"
    using tbl by (simp add: NoteOn_fields)
  from Refresh_total [OF this] obtain v' where r: "Refresh L ?w = Some v'" by blast
  have nw: "\<not> portamento_phase ?w + portamento_phase_increment ?w < portamento_phase_increment ?w"
    by (simp add: NoteOn_fields)
  have "note_portamento v' = scast n"
    by (simp add: Refresh_fields(10) [OF r] portamento_step_no_wrap(1) [OF nw] NoteOn_fields)
  then show ?thesis using r p by (simp add: NoteOn_fields)
qed

theorem NoteOn_glide_source_witness:
  "kNumOctaves \<le> length (calibrated_dac_code sample_voice) \<and> (30 :: u8) \<noteq> 0 \<and>
   note_source (NoteOn sample_resources 9000 100 0 True sample_voice) = 9000 \<and>
   (\<exists>v'. Refresh sample_resources (NoteOn sample_resources 9000 100 0 True sample_voice) = Some v'
       \<and> note_portamento v' = 9000) \<and>
   note_target (NoteOn sample_resources 9000 100 30 True sample_voice) = 9000 \<and>
   note_source (NoteOn sample_resources 9000 100 30 True sample_voice) = 7900"
proof -
  have p: "(30 :: u8) \<noteq> 0" by simp
  have c: "note_portamento sample_voice = 7900" by (simp add: sample_voice_def)
  have s: "(scast (9000 :: i16) :: i32) = 9000" by simp
  from NoteOn_glide_source [OF sample_voice_table p, of sample_resources 9000 100 True]
  show ?thesis using sample_voice_table by (simp only: c s p not_False_eq_True simp_thms)
qed

text \<open>
  Claim C8.  For a portamento above 50 the divisor \<open>glide_delta\<close> is not zero, the
  increment armed by \<^verbatim>\<open>NoteOn\<close> is the clamped quotient and lies in
  \<open>[1, 2147483647]\<close>, hence is not zero; and after any number \<open>k\<close> of ticks the
  increment is either still that value or has been reset by the completion of the glide
  (source on target).
\<close>

theorem linear_glide_increment:
  assumes p: "50 < portamento" and tbl: "kNumOctaves \<le> length (calibrated_dac_code v)"
  shows "glide_delta (v\<lparr>note_source := note_portamento v, note_target := scast n,
                        portamento_phase := 0\<rparr>) \<noteq> 0 \<and>
         portamento_phase_increment (NoteOn L n vel portamento trg v) =
           CONSTRAIN
             (push_bit 11
                (1536 * drop_bit 11 (lut_portamento_increments L (2 * (unat portamento - 51))) div
                 glide_delta (v\<lparr>note_source := note_portamento v, note_target := scast n,
                                 portamento_phase := 0\<rparr>)))
             1 2147483647 \<and>
         1 \<le> portamento_phase_increment (NoteOn L n vel portamento trg v) \<and>
         portamento_phase_increment (NoteOn L n vel portamento trg v) \<le> 2147483647 \<and>
         portamento_phase_increment (NoteOn L n vel portamento trg v) \<noteq> 0 \<and>
         (\<exists>vk. Refresh_n L k (NoteOn L n vel portamento trg v) = Some vk \<and>
               (portamento_phase_increment vk =
                  portamento_phase_increment (NoteOn L n vel portamento trg v) \<or>
                portamento_phase_increment vk = 0 \<and> note_source vk = note_target vk))"
proof -
  let ?w = "NoteOn L n vel portamento trg v"
  have nz: "portamento \<noteq> 0" using p by auto
  have hi: "\<not> portamento \<le> 50" using p by simp
  have inc: "portamento_phase_increment ?w =
      CONSTRAIN
        (push_bit 11
           (1536 * drop_bit 11 (lut_portamento_increments L (2 * (unat portamento - 51))) div
            glide_delta (v\<lparr>note_source := note_portamento v, note_target := scast n,
                            portamento_phase := 0\<rparr>)))
        1 2147483647"
    using nz hi by (simp add: NoteOn_increment glide_setup_def Let_def glide_delta_def)
  have rng: "1 \<le> portamento_phase_increment ?w \<and> portamento_phase_increment ?w \<le> 2147483647"
    unfolding inc by (rule CONSTRAIN_range)
  then have ne: "portamento_phase_increment ?w \<noteq> 0" by auto
  have d: "glide_delta (v\<lparr>note_source := note_portamento v, note_target := scast n,
                        portamento_phase := 0\<rparr>) \<noteq> 0"
    by (simp add: glide_delta_def abs_i32_plus_one)
  have t: "kNumOctaves \<le> length (calibrated_dac_code ?w)"
    using tbl by (simp add: NoteOn_fields)
  have "glide_settled (portamento_phase_increment ?w) ?w"
    by (simp add: glide_settled_def)
  from Refresh_n_settled [OF t this, of L k]
  have run: "\<exists>vk. Refresh_n L k ?w = Some vk \<and>
      (portamento_phase_increment vk = portamento_phase_increment ?w \<or>
       portamento_phase_increment vk = 0 \<and> note_source vk = note_target vk)"
    by (simp add: glide_settled_def)
  show ?thesis using d inc rng ne run by blast
qed

theorem linear_glide_increment_witness:
  "(50 :: u8) < 80 \<and> kNumOctaves \<le> length (calibrated_dac_code sample_voice) \<and>
   glide_delta (sample_voice\<lparr>note_source := note_portamento sample_voice,
       note_target := scast (9000 :: i16), portamento_phase := 0\<rparr>) = 1101 \<and>
   portamento_phase_increment (NoteOn sample_resources 9000 100 80 True sample_voice)
     = 1380941824 \<and>
   (\<exists>vk. Refresh_n sample_resources 3
            (NoteOn sample_resources 9000 100 80 True sample_voice) = Some vk \<and>
         (portamento_phase_increment vk = 1380941824 \<or>
          portamento_phase_increment vk = 0 \<and> note_source vk = note_target vk))"
proof -
  let ?w = "NoteOn sample_resources 9000 100 80 True sample_voice"
  have p: "(50 :: u8) < 80" by simp
  have g: "glide_delta (sample_voice\<lparr>note_source := note_portamento sample_voice,
       note_target := scast (9000 :: i16), portamento_phase := 0\<rparr>) = 1101"
    by (simp add: glide_delta_def abs_i32_def sample_voice_def word_sless_alt)
  have inc: "portamento_phase_increment ?w = 1380941824"
    by (simp add: NoteOn_increment glide_setup_def Let_def glide_delta_def abs_i32_def
        word_sless_alt CONSTRAIN_def sample_voice_def sample_resources_def)
  from linear_glide_increment [OF p sample_voice_table, of 9000 sample_resources 100 True 3]
  obtain vk where vk: "Refresh_n sample_resources 3 ?w = Some vk"
    "portamento_phase_increment vk = portamento_phase_increment ?w \<or>
     portamento_phase_increment vk = 0 \<and> note_source vk = note_target vk"
    by blast
  from vk(2) have "portamento_phase_increment vk = 1380941824 \<or>
     portamento_phase_increment vk = 0 \<and> note_source vk = note_target vk"
    by (simp only: inc)
  then show ?thesis using p sample_voice_table g inc vk(1) by blast
qed

subsection \<open>Vibrato oscillator\<close>

text \<open>
  Claim C5, as amended.  The oscillator output is a symmetric triangle: below the
  half-period it is \<open>-32768 + (phase >> 15)\<close>, rising from \<open>-32768\<close> to \<open>32767\<close>;
  from the half-period on it is \<open>98303 - (phase >> 15)\<close>, falling from \<open>32767\<close> back
  to \<open>-32768\<close>; it stays within \<open>[-32768, 32767]\<close>, and the phases \<open>p\<close> and
  \<open>2^32 - 1 - p\<close> give the same output.
\<close>

theorem lfo_triangle:
  "sint (lfo_value p) =
     (if p < 2 ^ 31 then - 32768 + int (unat p div 2 ^ 15)
      else 98303 - int (unat p div 2 ^ 15)) \<and>
   - 32768 \<le> sint (lfo_value p) \<and> sint (lfo_value p) \<le> 32767 \<and>
   lfo_value (- 1 - p) = lfo_value p"
proof -
  have "(p < 2 ^ 31) = (unat p < 2 ^ 31)" by (simp add: word_less_nat_alt)
  then show ?thesis
    using lfo_value_range [of p] by (simp add: lfo_value_sint lfo_value_mirror)
qed

text \<open>
  Just below the half-period the output is at its most positive value, not near zero;
  and from the half-period on it falls: phase \<open>0x80000000\<close> gives \<open>32767\<close>, the
  later phase \<open>0xC0000000\<close> gives \<open>-1\<close>.
\<close>

theorem lfo_triangle_counterexample:
  "(0x7FFFFFFF :: u32) < 2 ^ 31 \<and> sint (lfo_value 0x7FFFFFFF) = 32767 \<and>
   (2 ^ 31 :: u32) \<le> 0x80000000 \<and> (0x80000000 :: u32) < 0xC0000000 \<and>
   sint (lfo_value 0x80000000) = 32767 \<and> sint (lfo_value 0xC0000000) = - 1 \<and>
   \<not> sint (lfo_value 0x80000000) \<le> sint (lfo_value 0xC0000000)"
  by (simp add: lfo_value_def)

subsection \<open>Trigger\<close>

text \<open>
  Claim C6.  On a gated voice, \<^verbatim>\<open>NoteOn\<close> with a trigger arms the retrigger
  countdown with 2, and the trigger output is the zero-volt code (table entry 3) at
  once and in every state reached afterwards, by any events, in which the countdown is
  still pending: the armed envelope does not show before the gap is over.
\<close>

theorem retrigger_gap:
  assumes tbl: "kNumOctaves \<le> length (calibrated_dac_code v)" and g: "gate v"
  shows "retrigger_delay (NoteOn L n vel p True v) = 2 \<and>
         trigger_dac_code L (NoteOn L n vel p True v) = Some (calibrated_dac_code v ! 3) \<and>
         (\<exists>v'. run L (NoteOn L n vel p True v) es = Some v' \<and>
               (retrigger_delay v' \<noteq> 0 \<longrightarrow>
                  trigger_dac_code L v' = Some (calibrated_dac_code v ! 3)))"
proof -
  let ?w = "NoteOn L n vel p True v"
  have rd: "retrigger_delay ?w = 2" using g by (simp add: NoteOn_fields)
  have gi: "gap_inv ?w" using g by (simp add: gap_inv_def NoteOn_fields)
  have t: "kNumOctaves \<le> length (calibrated_dac_code ?w)" using tbl by (simp add: NoteOn_fields)
  have now: "trigger_dac_code L ?w = Some (calibrated_dac_code v ! 3)"
    using gap_rest_code [OF gi _ t] rd by (simp add: NoteOn_fields)
  have "\<exists>v'. run L ?w es = Some v' \<and>
      (calibrated_dac_code v' = calibrated_dac_code v \<and>
       kNumOctaves \<le> length (calibrated_dac_code v) \<and> gap_inv v')"
    using tbl gi by (intro run_invariant apply_event_gap) (simp_all add: NoteOn_fields)
  then obtain v' where v': "run L ?w es = Some v'" "calibrated_dac_code v' = calibrated_dac_code v"
    "gap_inv v'" by blast
  have "retrigger_delay v' \<noteq> 0 \<longrightarrow> trigger_dac_code L v' = Some (calibrated_dac_code v ! 3)"
    using gap_rest_code [OF v'(3), of L] tbl v'(2) by simp
  then show ?thesis using rd now v'(1) by simp
qed

theorem retrigger_gap_witness:
  "kNumOctaves \<le> length (calibrated_dac_code sample_voice) \<and> gate sample_voice \<and>
   retrigger_delay (NoteOn sample_resources 9000 100 30 True sample_voice) = 2 \<and>
   trigger_dac_code sample_resources (NoteOn sample_resources 9000 100 30 True sample_voice)
     = Some 39187 \<and>
   (\<exists>v'. run sample_resources (NoteOn sample_resources 9000 100 30 True sample_voice) [EvRefresh]
           = Some v' \<and>
         retrigger_delay v' = 1 \<and> trigger_dac_code sample_resources v' = Some 39187)"
proof -
  let ?w = "NoteOn sample_resources 9000 100 30 True sample_voice"
  have g: "gate sample_voice" by (simp add: sample_voice_def)
  have c: "calibrated_dac_code sample_voice ! 3 = 39187"
    by (simp add: sample_voice_def default_calibration_eq)
  from retrigger_gap [OF sample_voice_table g, of sample_resources 9000 100 30 "[EvRefresh]"]
  obtain v' where rd: "retrigger_delay ?w = 2"
    and now: "trigger_dac_code sample_resources ?w = Some 39187"
    and v': "run sample_resources ?w [EvRefresh] = Some v'"
      "retrigger_delay v' \<noteq> 0 \<longrightarrow> trigger_dac_code sample_resources v' = Some 39187"
    by (auto simp only: c)
  have r: "Refresh sample_resources ?w = Some v'"
    using v'(1) by (simp split: option.splits)
  have one: "retrigger_delay v' = 1"
    by (simp add: Refresh_fields(12) [OF r] rd)
  then have "trigger_dac_code sample_resources v' = Some 39187" using v'(2) by simp
  then show ?thesis using sample_voice_table g rd now v'(1) one by blast
qed

text \<open>
  Claim C7.  \<^verbatim>\<open>NoteOn\<close> with a trigger arms the pulse countdown with
  \<open>trigger_duration * 8\<close>; after \<open>k\<close> ticks it holds
  \<open>trigger_duration * 8 - k\<close>, floored at zero, so it is zero exactly from tick
  \<open>trigger_duration * 8\<close> on.
\<close>

theorem trigger_pulse_width:
  assumes "kNumOctaves \<le> length (calibrated_dac_code v)"
  shows "unat (trigger_pulse (NoteOn L n vel p True v)) = unat (trigger_duration v) * 8 \<and>
         (\<exists>vk. Refresh_n L k (NoteOn L n vel p True v) = Some vk \<and>
               unat (trigger_pulse vk) = unat (trigger_duration v) * 8 - k \<and>
               (trigger_pulse vk = 0) = (unat (trigger_duration v) * 8 \<le> k))"
proof -
  let ?w = "NoteOn L n vel p True v"
  have "unat (trigger_duration v) < 256"
    using unsigned_less [of "trigger_duration v", where 'a = nat] by simp
  then have "(unat (trigger_duration v) * 8) mod 2 ^ LENGTH(16) = unat (trigger_duration v) * 8"
    by simp
  then have "unat (word_of_nat (unat (trigger_duration v) * 8) :: u16) =
      unat (trigger_duration v) * 8"
    by (simp only: unat_of_nat)
  then have arm: "unat (trigger_pulse ?w) = unat (trigger_duration v) * 8"
    by (simp only: NoteOn_fields if_True)
  have t: "kNumOctaves \<le> length (calibrated_dac_code ?w)"
    using assms by (simp add: NoteOn_fields)
  from Refresh_n_pulse [OF t, of L k] obtain vk where
    vk: "Refresh_n L k ?w = Some vk" "unat (trigger_pulse vk) = unat (trigger_pulse ?w) - k"
    by blast
  have "(trigger_pulse vk = 0) = (unat (trigger_pulse vk) = 0)"
    by (simp add: unat_eq_0)
  then have "(trigger_pulse vk = 0) = (unat (trigger_duration v) * 8 \<le> k)"
    using vk(2) arm by simp
  then show ?thesis using arm vk by simp
qed

theorem trigger_pulse_width_witness:
  "kNumOctaves \<le> length (calibrated_dac_code sample_voice) \<and>
   unat (trigger_duration sample_voice) * 8 = 16 \<and>
   unat (trigger_pulse (NoteOn sample_resources 9000 100 30 True sample_voice)) = 16 \<and>
   (\<exists>vk. Refresh_n sample_resources 15
            (NoteOn sample_resources 9000 100 30 True sample_voice) = Some vk \<and>
         unat (trigger_pulse vk) = 1 \<and> trigger_pulse vk \<noteq> 0) \<and>
   (\<exists>vk. Refresh_n sample_resources 16
            (NoteOn sample_resources 9000 100 30 True sample_voice) = Some vk \<and>
         unat (trigger_pulse vk) = 0 \<and> trigger_pulse vk = 0)"
proof -
  have d: "unat (trigger_duration sample_voice) * 8 = 16" by (simp add: sample_voice_def)
  from trigger_pulse_width [OF sample_voice_table, of sample_resources 9000 100 30 15]
    trigger_pulse_width [OF sample_voice_table, of sample_resources 9000 100 30 16]
  show ?thesis using sample_voice_table by (simp add: d)
qed

subsection \<open>Controllers\<close>

text \<open>
  Claim C9.  After \<^verbatim>\<open>Init\<close> the channel \<open>mod_aux[2]\<close> is zero and is still zero
  after any run of \<^verbatim>\<open>NoteOn\<close>, \<^verbatim>\<open>NoteOff\<close>, \<^verbatim>\<open>ControlChange\<close> and
  \<^verbatim>\<open>Refresh\<close>; from any voice, such a run leaves \<open>mod_aux[2]\<close> as it was.
\<close>

theorem mod_aux_2_never_written:
  assumes "voice_ok v"
  shows "mod_aux (Init reset_calibration v) ! 2 = 0 \<and>
         (\<exists>v'. run L (Init reset_calibration v) es = Some v' \<and> mod_aux v' ! 2 = 0) \<and>
         (\<exists>v'. run L v es = Some v' \<and> mod_aux v' ! 2 = mod_aux v ! 2)"
proof -
  have len: "length (mod_aux v) = 8" and tbl: "kNumOctaves \<le> length (calibrated_dac_code v)"
    using assms by (simp_all add: voice_ok_def)
  have aux: "mod_aux (Init reset_calibration v) ! 2 = 0"
    using fill_mod_aux [OF len] by (simp add: Init_def ResetAllControllers_def Let_def)
  have "length default_calibration = kNumOctaves" by (simp add: default_calibration_def)
  then have tbl': "kNumOctaves \<le> length (calibrated_dac_code (Init reset_calibration v))"
    using tbl by (simp add: Init_def ResetAllControllers_def Let_def)
  have a: "\<exists>v'. run L (Init reset_calibration v) es = Some v' \<and>
      (kNumOctaves \<le> length (calibrated_dac_code v') \<and> mod_aux v' ! 2 = 0)"
    using tbl' aux by (intro run_invariant apply_event_aux2) simp_all
  have b: "\<exists>v'. run L v es = Some v' \<and>
      (kNumOctaves \<le> length (calibrated_dac_code v') \<and> mod_aux v' ! 2 = mod_aux v ! 2)"
    using tbl by (intro run_invariant apply_event_aux2) simp_all
  show ?thesis using aux a b by blast
qed

theorem mod_aux_2_never_written_witness:
  "voice_ok sample_voice \<and>
   mod_aux (Init True sample_voice) ! 2 = 0 \<and>
   (\<exists>v'. run sample_resources (Init True sample_voice)
           [EvControlChange 2 100, EvRefresh, EvNoteOn 9000 100 30 True, EvRefresh, EvNoteOff]
         = Some v' \<and> mod_aux v' ! 2 = 0) \<and>
   (\<exists>v'. run sample_resources sample_voice
           [EvControlChange 2 100, EvRefresh, EvNoteOn 9000 100 30 True, EvRefresh, EvNoteOff]
         = Some v' \<and> mod_aux v' ! 2 = 13)"
proof -
  have ok: "voice_ok sample_voice"
    by (simp add: voice_ok_def sample_voice_def default_calibration_def)
  have a: "mod_aux sample_voice ! 2 = 13" by (simp add: sample_voice_def)
  from mod_aux_2_never_written [OF ok, of True sample_resources
      "[EvControlChange 2 100, EvRefresh, EvNoteOn 9000 100 30 True, EvRefresh, EvNoteOff]"]
  show ?thesis using ok by (simp only: a simp_thms)
qed

text \<open>
  Claim C10.  \<^verbatim>\<open>ResetAllControllers\<close> sets the pitch bend to 8192, the wheel to 0
  and the channels \<open>mod_aux[0]\<close> to \<open>mod_aux[6]\<close> to 0; it changes nothing else, so
  \<open>mod_aux[7]\<close> keeps its value.  The same three effects hold after \<^verbatim>\<open>Init\<close>.
\<close>

theorem ResetAllControllers_effect:
  assumes "length (mod_aux v) = 8"
  shows "ResetAllControllers v =
           v\<lparr>mod_pitch_bend := 8192, mod_wheel := 0,
             mod_aux := [0, 0, 0, 0, 0, 0, 0, mod_aux v ! 7]\<rparr> \<and>
         mod_pitch_bend (Init reset_calibration v) = 8192 \<and>
         mod_wheel (Init reset_calibration v) = 0 \<and>
         mod_aux (Init reset_calibration v) = [0, 0, 0, 0, 0, 0, 0, mod_aux v ! 7]"
  using fill_mod_aux [OF assms]
  by (simp add: ResetAllControllers_def Init_def Let_def)

theorem ResetAllControllers_effect_witness:
  "length (mod_aux sample_voice) = 8 \<and>
   mod_pitch_bend sample_voice = 9000 \<and> mod_wheel sample_voice = 5 \<and>
   mod_pitch_bend (ResetAllControllers sample_voice) = 8192 \<and>
   mod_wheel (ResetAllControllers sample_voice) = 0 \<and>
   mod_aux (ResetAllControllers sample_voice) = [0, 0, 0, 0, 0, 0, 0, 18] \<and>
   mod_aux (Init True sample_voice) = [0, 0, 0, 0, 0, 0, 0, 18]"
proof -
  have len: "length (mod_aux sample_voice) = 8" by (simp add: sample_voice_def)
  have a: "mod_aux sample_voice ! 7 = 18" by (simp add: sample_voice_def)
  have b: "mod_pitch_bend sample_voice = 9000" "mod_wheel sample_voice = 5"
    by (simp_all add: sample_voice_def)
  from ResetAllControllers_effect [OF len, of True]
  show ?thesis using len b by (simp add: a)
qed

end
